theory Spec2Isabelle
  imports Complex_Main "HOL-Library.AList"
begin

section \<open>minidaw: the Timeline / Instrument / Wavetable rendering pipeline\<close>

text \<open>
  A shallow embedding of \<^verbatim>\<open>audio_composition.py\<close>.

  \<^item> Times, velocities and samples are exact rationals: the rounding of IEEE floats and
    the dtype of a buffer are not part of the model.
  \<^item> A NumPy array is a view (base buffer, offset, shape) into a store of buffers, so that
    sharing between the sample of an \<^verbatim>\<open>AudioSample\<close>, the cache of a
    \<^verbatim>\<open>Wavetable\<close> and the buffers produced while rendering is visible.
  \<^item> \<^verbatim>\<open>Wavetable\<close> objects live in the store as well: two tracks may hold the same
    instrument.
  \<^item> Every \<^verbatim>\<open>raise\<close> of the source and of the NumPy and built-in operations it
    calls is a value of type \<open>error\<close>.
  \<^item> The store carries a trace of the calls made on sound generators and instruments (what
    a call-counting stub would record).
\<close>

subsection \<open>Data model\<close>

datatype error = ValueError | KeyError | TypeError | Warning

text \<open>The annotation \<^verbatim>\<open>Union[int, str]\<close> of a note name, a key of the wavetable.\<close>

datatype WavetableKey = IntKey int | StrKey string

type_synonym addr = nat

text \<open>A one-dimensional \<^verbatim>\<open>np.ndarray\<close>: \<open>shape\<close> elements of the buffer at \<open>base\<close>,
  from index \<open>offset\<close> on.\<close>

record ndarray =
  base :: addr
  offset :: nat
  shape :: nat

datatype pyval = PyNone | Array ndarray

text \<open>\<^verbatim>\<open>class AudioSample(SoundGenerator)\<close> with its fields \<^verbatim>\<open>data\<close> and \<^verbatim>\<open>sr\<close>, and
  \<^verbatim>\<open>class AudioSynthesizer(SoundGenerator): ...\<close>.\<close>

datatype SoundGenerator = AudioSample ndarray int | AudioSynthesizer

text \<open>\<^verbatim>\<open>class Note\<close>; the field \<open>pitch\<close> is \<^verbatim>\<open>Note.note\<close>.\<close>

record Note =
  track_id :: int
  pitch :: WavetableKey
  start_time :: rat
  duration :: rat
  velocity :: rat
  time_wise :: bool
  is_on :: bool

text \<open>\<^verbatim>\<open>class Wavetable\<close>: \<open>wavetable\<close> is the dictionary \<^verbatim>\<open>self.wavetable\<close>.\<close>

record Wavetable =
  sound_generator :: SoundGenerator
  wt_sr :: int
  wavetable :: "WavetableKey \<rightharpoonup> pyval"

text \<open>\<^verbatim>\<open>class Instrument\<close>: a reference to a \<^verbatim>\<open>Wavetable\<close> object.\<close>

record Instrument =
  wavetable_ref :: addr

text \<open>\<^verbatim>\<open>class Track\<close>; \<^verbatim>\<open>Track.__init__\<close> drops the name.\<close>

record Track =
  tr_id :: int
  instrument :: Instrument

text \<open>\<^verbatim>\<open>class Timeline\<close>. The dictionary \<^verbatim>\<open>self.tracks\<close> is an association list in
  insertion order, with \<open>AList.update\<close> for \<^verbatim>\<open>d[k] = v\<close>.\<close>

record Timeline =
  tracks :: "(int \<times> Track) list"
  "notes" :: "Note list"
  keep_sorted :: bool
  sr :: int
  bpm :: int

datatype event = GetSound addr WavetableKey | PlayNote Instrument Note

record world =
  arrays :: "addr \<Rightarrow> rat list"
  next_array :: addr
  wavetables :: "addr \<Rightarrow> Wavetable"
  next_wavetable :: addr
  trace :: "event list"

subsection \<open>NumPy arrays and Python built-ins\<close>

definition read_array :: "world \<Rightarrow> ndarray \<Rightarrow> rat list" where
  "read_array w a = take (shape a) (drop (offset a) (arrays w (base a)))"

definition write_array :: "ndarray \<Rightarrow> rat list \<Rightarrow> world \<Rightarrow> world" where
  "write_array a xs w =
     (let old = arrays w (base a)
      in w\<lparr>arrays := (arrays w)(base a := take (offset a) old @ xs @ drop (offset a + shape a) old)\<rparr>)"

definition new_array :: "rat list \<Rightarrow> world \<Rightarrow> ndarray \<times> world" where
  "new_array xs w =
     (\<lparr>base = next_array w, offset = 0, shape = length xs\<rparr>,
      w\<lparr>arrays := (arrays w)(next_array w := xs), next_array := Suc (next_array w)\<rparr>)"

text \<open>\<^verbatim>\<open>int(x)\<close> on a number: truncation toward zero.\<close>

definition py_int :: "rat \<Rightarrow> int" where
  "py_int x = (if 0 \<le> x then \<lfloor>x\<rfloor> else \<lceil>x\<rceil>)"

text \<open>\<^verbatim>\<open>np.zeros(n)\<close>: a negative dimension raises \<^verbatim>\<open>ValueError\<close>.\<close>

definition np_zeros :: "int \<Rightarrow> world \<Rightarrow> error + (ndarray \<times> world)" where
  "np_zeros n w = (if n < 0 then Inl ValueError else Inr (new_array (replicate (nat n) 0) w))"

text \<open>One bound of a slice against a length: a negative bound counts from the end, and
  the result is clamped to the range of the array.\<close>

definition slice_index :: "nat \<Rightarrow> int \<Rightarrow> nat" where
  "slice_index len i = (if i < 0 then nat (max 0 (int len + i)) else min (nat i) len)"

text \<open>\<^verbatim>\<open>a[start:stop]\<close>: a view on the same buffer.\<close>

definition slice_view :: "ndarray \<Rightarrow> int \<Rightarrow> int \<Rightarrow> ndarray" where
  "slice_view a start stop =
     (let s = slice_index (shape a) start; e = slice_index (shape a) stop
      in a\<lparr>offset := offset a + s, shape := e - s\<rparr>)"

text \<open>\<^verbatim>\<open>a * v\<close> with a scalar: a new array.\<close>

definition np_mul :: "ndarray \<Rightarrow> rat \<Rightarrow> world \<Rightarrow> ndarray \<times> world" where
  "np_mul a v w = new_array (map (\<lambda>x. x * v) (read_array w a)) w"

text \<open>\<^verbatim>\<open>t += s\<close> on one-dimensional arrays, in place in the buffer of \<open>t\<close>: the shapes
  must be equal, or \<open>s\<close> has one element, which is broadcast; otherwise NumPy raises
  \<^verbatim>\<open>ValueError\<close>.\<close>

definition np_iadd :: "ndarray \<Rightarrow> ndarray \<Rightarrow> world \<Rightarrow> error + world" where
  "np_iadd t s w =
     (let xs = read_array w t; ys = read_array w s
      in if length ys = length xs then Inr (write_array t (map2 (+) xs ys) w)
         else (case ys of
                 [y] \<Rightarrow> Inr (write_array t (map (\<lambda>x. x + y) xs) w)
               | _ \<Rightarrow> Inl ValueError))"

text \<open>An array that owns its whole buffer, allocated in the store (as \<^verbatim>\<open>np.zeros\<close>
  returns it).\<close>

definition allocated_whole :: "world \<Rightarrow> ndarray \<Rightarrow> bool" where
  "allocated_whole w a \<longleftrightarrow>
     base a < next_array w \<and> offset a = 0 \<and> shape a = length (arrays w (base a))"

subsection \<open>\<^verbatim>\<open>bisect.insort\<close> with a key\<close>

function bisect_right :: "'a list \<Rightarrow> 'k::linorder \<Rightarrow> nat \<Rightarrow> nat \<Rightarrow> ('a \<Rightarrow> 'k) \<Rightarrow> nat" where
  "bisect_right a x lo hi key =
     (if lo < hi
      then (let mid = (lo + hi) div 2
            in if x < key (a ! mid) then bisect_right a x lo mid key
               else bisect_right a x (mid + 1) hi key)
      else lo)"
  by pat_completeness auto
termination
  by (relation "measure (\<lambda>(a, x, lo, hi, key). hi - lo)") auto

definition bisect_insort :: "'a list \<Rightarrow> 'a \<Rightarrow> ('a \<Rightarrow> 'k::linorder) \<Rightarrow> 'a list" where
  "bisect_insort a x key =
     (let lo = bisect_right a (key x) 0 (length a) key
      in take lo a @ x # drop lo a)"

subsection \<open>SoundGenerator, Wavetable, Instrument\<close>

text \<open>\<^verbatim>\<open>AudioSample.get_sound\<close> returns \<^verbatim>\<open>self.data\<close> whatever its argument is;
  \<^verbatim>\<open>AudioSynthesizer\<close> inherits the body \<^verbatim>\<open>pass\<close> of the base class and returns
  \<^verbatim>\<open>None\<close>.\<close>

fun get_sound :: "SoundGenerator \<Rightarrow> int option \<Rightarrow> pyval" where
  "get_sound (AudioSample data sr0) sr1 = Array data"
| "get_sound AudioSynthesizer sr1 = PyNone"

text \<open>\<^verbatim>\<open>Wavetable(generator, sr)\<close>: a new object with an empty dictionary.\<close>

definition Wavetable_init :: "SoundGenerator \<Rightarrow> int \<Rightarrow> world \<Rightarrow> addr \<times> world" where
  "Wavetable_init generator sr0 w =
     (next_wavetable w,
      w\<lparr>wavetables := (wavetables w)(next_wavetable w :=
           \<lparr>sound_generator = generator, wt_sr = sr0, wavetable = Map.empty\<rparr>),
        next_wavetable := Suc (next_wavetable w)\<rparr>)"

definition Wavetable_get_sound :: "addr \<Rightarrow> WavetableKey \<Rightarrow> world \<Rightarrow> pyval \<times> world" where
  "Wavetable_get_sound self k w =
     (get_sound (sound_generator (wavetables w self)) (Some (wt_sr (wavetables w self))),
      w\<lparr>trace := trace w @ [GetSound self k]\<rparr>)"

definition Wavetable_getitem :: "addr \<Rightarrow> WavetableKey \<Rightarrow> world \<Rightarrow> pyval \<times> world" where
  "Wavetable_getitem self k w =
     (case wavetable (wavetables w self) k of
        Some v \<Rightarrow> (v, w)
      | None \<Rightarrow>
          (let (v, w1) = Wavetable_get_sound self k w;
               wt = wavetables w1 self
           in (v, w1\<lparr>wavetables := (wavetables w1)(self := wt\<lparr>wavetable := (wavetable wt)(k \<mapsto> v)\<rparr>)\<rparr>)))"

text \<open>A sequence of lookups \<^verbatim>\<open>self[k]\<close> on one wavetable, with the values returned.\<close>

fun lookups :: "addr \<Rightarrow> WavetableKey list \<Rightarrow> world \<Rightarrow> pyval list \<times> world" where
  "lookups self [] w = ([], w)"
| "lookups self (k # ks) w =
     (let (v, w1) = Wavetable_getitem self k w;
          (vs, w2) = lookups self ks w1
      in (v # vs, w2))"

text \<open>What \<^verbatim>\<open>self[k]\<close> returns in a given store: the cached value, or else the value of
  the generator.\<close>

definition lookup_val :: "world \<Rightarrow> addr \<Rightarrow> WavetableKey \<Rightarrow> pyval" where
  "lookup_val w self k =
     (case wavetable (wavetables w self) k of
        Some v \<Rightarrow> v
      | None \<Rightarrow> get_sound (sound_generator (wavetables w self)) (Some (wt_sr (wavetables w self))))"

text \<open>\<^verbatim>\<open>Instrument.play_note\<close>. \<^verbatim>\<open>None * velocity\<close> raises \<^verbatim>\<open>TypeError\<close>.\<close>

definition play_note :: "Instrument \<Rightarrow> Note \<Rightarrow> world \<Rightarrow> error + (ndarray \<times> world)" where
  "play_note self n w =
     (let (v, w1) = Wavetable_getitem (wavetable_ref self) (pitch n)
                      (w\<lparr>trace := trace w @ [PlayNote self n]\<rparr>)
      in case v of
           PyNone \<Rightarrow> Inl TypeError
         | Array a \<Rightarrow>
             (let (sound, w2) = np_mul a (velocity n) w1;
                  sr0 = wt_sr (wavetables w2 (wavetable_ref self))
              in Inr (if time_wise n
                      then slice_view sound 0 (py_int (duration n * of_int sr0))
                      else sound, w2)))"

subsection \<open>Timeline\<close>

text \<open>\<^verbatim>\<open>populate_tracks\<close>: the state of the timeline when the call returns (\<open>None\<close>) or
  raises.\<close>

fun populate_tracks :: "Timeline \<Rightarrow> Track list \<Rightarrow> error option \<times> Timeline" where
  "populate_tracks self [] = (None, self)"
| "populate_tracks self (track # rest) =
     (if tr_id track \<in> fst ` set (tracks self) then (Some Warning, self)
      else populate_tracks (self\<lparr>tracks := AList.update (tr_id track) track (tracks self)\<rparr>) rest)"

text \<open>The loop \<^verbatim>\<open>while t_id in self.tracks: t_id += 1\<close>.\<close>

function free_track_id :: "(int \<times> Track) list \<Rightarrow> int \<Rightarrow> int" where
  "free_track_id ts t_id =
     (if t_id \<in> fst ` set ts then free_track_id ts (t_id + 1) else t_id)"
  by pat_completeness auto
termination
proof (relation "measure (\<lambda>(ts, t_id). nat (Max (fst ` set ts) + 1 - t_id))")
  show "wf (measure (\<lambda>(ts, t_id). nat (Max (fst ` set ts) + 1 - t_id)))"
    by simp
next
  fix ts :: "(int \<times> Track) list" and t_id :: int
  assume "t_id \<in> fst ` set ts"
  then have "t_id \<le> Max (fst ` set ts)"
    by (intro Max_ge) auto
  then show "((ts, t_id + 1), (ts, t_id)) \<in> measure (\<lambda>(ts, t_id). nat (Max (fst ` set ts) + 1 - t_id))"
    by simp
qed

text \<open>The argument of \<^verbatim>\<open>add_track\<close>, \<^verbatim>\<open>Union[Instrument, SoundGenerator]\<close>.\<close>

datatype track_source = OfInstrument Instrument | OfGenerator SoundGenerator

definition add_track :: "Timeline \<Rightarrow> track_source \<Rightarrow> world \<Rightarrow> int \<times> Timeline \<times> world" where
  "add_track self src w =
     (let t_id = free_track_id (tracks self) (int (length (tracks self)));
          (ins, w1) = (case src of
                         OfInstrument i \<Rightarrow> (i, w)
                       | OfGenerator g \<Rightarrow>
                           (let (wa, w') = Wavetable_init g 44100 w
                            in (\<lparr>wavetable_ref = wa\<rparr>, w')));
          new_track = \<lparr>tr_id = t_id, instrument = ins\<rparr>
      in (t_id, self\<lparr>tracks := AList.update (tr_id new_track) new_track (tracks self)\<rparr>, w1))"

definition populate_notes :: "Timeline \<Rightarrow> Note list \<Rightarrow> Timeline" where
  "populate_notes self ns =
     (if keep_sorted self
      then self\<lparr>notes := foldl (\<lambda>a n. bisect_insort a n start_time) (notes self) ns\<rparr>
      else self\<lparr>notes := notes self @ ns\<rparr>)"

definition add_note :: "Timeline \<Rightarrow> Note \<Rightarrow> Timeline" where
  "add_note self n =
     (if keep_sorted self
      then self\<lparr>notes := bisect_insort (notes self) n start_time\<rparr>
      else self\<lparr>notes := notes self @ [n]\<rparr>)"

definition sort_notes :: "Timeline \<Rightarrow> Timeline" where
  "sort_notes self = self\<lparr>notes := sort_key start_time (notes self)\<rparr>"

text \<open>\<^verbatim>\<open>Timeline.__init__\<close>: an exception of \<^verbatim>\<open>populate_tracks\<close> leaves no object.\<close>

definition Timeline_init :: "Track list \<Rightarrow> Note list \<Rightarrow> bool \<Rightarrow> int \<Rightarrow> int \<Rightarrow> error + Timeline" where
  "Timeline_init ts ns ks sr0 bpm0 =
     (case populate_tracks \<lparr>tracks = [], notes = [], keep_sorted = ks, sr = sr0, bpm = bpm0\<rparr> ts of
        (Some e, _) \<Rightarrow> Inl e
      | (None, self) \<Rightarrow> Inr (populate_notes self ns))"

text \<open>The default of \<^verbatim>\<open>end_time\<close>: \<^verbatim>\<open>max\<close> of an empty list raises \<^verbatim>\<open>ValueError\<close>.\<close>

definition resolve_end_time :: "Timeline \<Rightarrow> rat option \<Rightarrow> error + rat" where
  "resolve_end_time self end_time =
     (case end_time of
        Some e \<Rightarrow> Inr e
      | None \<Rightarrow>
          (case map (\<lambda>n. start_time n + duration n) (notes self) of
             [] \<Rightarrow> Inl ValueError
           | x # xs \<Rightarrow> Inr (fold max xs x)))"

text \<open>The loop over \<^verbatim>\<open>self.notes\<close> of \<^verbatim>\<open>generate_audio\<close>, on the notes still to come.\<close>

fun render_notes :: "Timeline \<Rightarrow> rat \<Rightarrow> rat \<Rightarrow> ndarray \<Rightarrow> Note list \<Rightarrow> world \<Rightarrow> error + world" where
  "render_notes self st en audio_data [] w = Inr w"
| "render_notes self st en audio_data (n # ns) w =
     (if start_time n + duration n \<le> st then render_notes self st en audio_data ns w
      else if start_time n \<ge> en then Inr w
      else (case map_of (tracks self) (track_id n) of
              None \<Rightarrow> Inl KeyError
            | Some track \<Rightarrow>
                (case play_note (instrument track) n w of
                   Inl e \<Rightarrow> Inl e
                 | Inr (sound, w1) \<Rightarrow>
                     (let start_idx = py_int ((start_time n - st) * of_int (sr self));
                          end_idx = start_idx + int (shape sound)
                      in case np_iadd (slice_view audio_data start_idx end_idx) sound w1 of
                           Inl e \<Rightarrow> Inl e
                         | Inr w2 \<Rightarrow> render_notes self st en audio_data ns w2))))"

definition generate_audio ::
  "Timeline \<Rightarrow> rat \<Rightarrow> rat option \<Rightarrow> world \<Rightarrow> error + (ndarray \<times> Timeline \<times> world)" where
  "generate_audio self st end_time w =
     (let self1 = (if \<not> keep_sorted self then sort_notes self else self)
      in case resolve_end_time self1 end_time of
           Inl e \<Rightarrow> Inl e
         | Inr en \<Rightarrow>
             (case np_zeros (py_int ((en - st) * of_int (sr self1))) w of
                Inl e \<Rightarrow> Inl e
              | Inr (audio_data, w1) \<Rightarrow>
                  (case render_notes self1 st en audio_data (notes self1) w1 of
                     Inl e \<Rightarrow> Inl e
                   | Inr w2 \<Rightarrow> Inr (audio_data, self1, w2))))"

text \<open>Every buffer that a lookup on an instrument of the timeline can return is allocated
  in the store.\<close>

definition buffers_allocated :: "Timeline \<Rightarrow> world \<Rightarrow> bool" where
  "buffers_allocated self w \<longleftrightarrow>
     (\<forall>t\<in>snd ` set (tracks self). \<forall>k a.
        lookup_val w (wavetable_ref (instrument t)) k = Array a \<longrightarrow> base a < next_array w)"

subsection \<open>Example objects\<close>

text \<open>\<^verbatim>\<open>Note.__init__\<close> with its defaults \<^verbatim>\<open>is_on=True\<close>.\<close>

definition Note_init :: "int \<Rightarrow> WavetableKey \<Rightarrow> rat \<Rightarrow> rat \<Rightarrow> rat \<Rightarrow> bool \<Rightarrow> Note" where
  "Note_init tid k s d v tw =
     \<lparr>track_id = tid, pitch = k, start_time = s, duration = d, velocity = v, time_wise = tw,
      is_on = True\<rparr>"

text \<open>A small version of \<^verbatim>\<open>drum_pattern.py\<close>: two samples of three and two frames, one
  wavetable and one track for each, at two frames per unit of time.\<close>

definition kick :: SoundGenerator where
  "kick = AudioSample \<lparr>base = 0, offset = 0, shape = 3\<rparr> 44100"

definition clap :: SoundGenerator where
  "clap = AudioSample \<lparr>base = 1, offset = 0, shape = 2\<rparr> 44100"

definition drum_world :: world where
  "drum_world =
     \<lparr>arrays = (\<lambda>_. [])(0 := [1, 2, 3], 1 := [4, 5]),
      next_array = 2,
      wavetables = (\<lambda>_. \<lparr>sound_generator = AudioSynthesizer, wt_sr = 44100, wavetable = Map.empty\<rparr>)
        (0 := \<lparr>sound_generator = kick, wt_sr = 2, wavetable = Map.empty\<rparr>,
         1 := \<lparr>sound_generator = clap, wt_sr = 2, wavetable = Map.empty\<rparr>),
      next_wavetable = 2,
      trace = []\<rparr>"

definition kick_instrument :: Instrument where
  "kick_instrument = \<lparr>wavetable_ref = 0\<rparr>"

definition clap_instrument :: Instrument where
  "clap_instrument = \<lparr>wavetable_ref = 1\<rparr>"

definition drum_tracks :: "Track list" where
  "drum_tracks = [\<lparr>tr_id = 0, instrument = kick_instrument\<rparr>, \<lparr>tr_id = 1, instrument = clap_instrument\<rparr>]"

definition drum_timeline :: "Note list \<Rightarrow> Timeline" where
  "drum_timeline ns =
     \<lparr>tracks = [(0, \<lparr>tr_id = 0, instrument = kick_instrument\<rparr>),
                (1, \<lparr>tr_id = 1, instrument = clap_instrument\<rparr>)],
      notes = ns, keep_sorted = True, sr = 2, bpm = 120\<rparr>"

text \<open>The samples of the buffer that \<^verbatim>\<open>generate_audio\<close> returned.\<close>

definition rendered_samples :: "error + (ndarray \<times> Timeline \<times> world) \<Rightarrow> error + rat list" where
  "rendered_samples r = (case r of Inl e \<Rightarrow> Inl e | Inr (a, self, w) \<Rightarrow> Inr (read_array w a))"

text \<open>The calls that the store recorded when \<^verbatim>\<open>generate_audio\<close> returned.\<close>

definition rendered_trace :: "error + (ndarray \<times> Timeline \<times> world) \<Rightarrow> error + event list" where
  "rendered_trace r = (case r of Inl e \<Rightarrow> Inl e | Inr (a, self, w) \<Rightarrow> Inr (trace w))"

section \<open>Proofs\<close>

lemma rendered_samples_InrD:
  "rendered_samples r = Inr xs \<Longrightarrow> r = Inr (fst (projr r), fst (snd (projr r)), snd (snd (projr r)))"
  by (cases r) (simp_all add: rendered_samples_def)

lemma not_isl_InrD:
  "\<not> isl r \<Longrightarrow> r = Inr (fst (projr r), snd (projr r))"
  by (cases r) simp_all


lemmas example_defs = drum_world_def drum_timeline_def kick_def clap_def kick_instrument_def
  clap_instrument_def Note_init_def drum_tracks_def

lemmas run_defs = generate_audio_def resolve_end_time_def np_zeros_def new_array_def py_int_def
  play_note_def Wavetable_getitem_def Wavetable_get_sound_def Wavetable_init_def np_mul_def
  read_array_def slice_view_def slice_index_def np_iadd_def write_array_def rendered_samples_def
  rendered_trace_def Let_def


declare free_track_id.simps [simp del]

subsection \<open>Track identifiers\<close>

lemma free_track_id_spec:
  "i \<le> free_track_id ts i \<and> free_track_id ts i \<notin> fst ` set ts \<and>
   (\<forall>j. i \<le> j \<and> j < free_track_id ts i \<longrightarrow> j \<in> fst ` set ts)"
proof (induction ts i rule: free_track_id.induct)
  case (1 ts t_id)
  show ?case
  proof (cases "t_id \<in> fst ` set ts")
    case True
    note IH = "1.IH"[OF True]
    have eq: "free_track_id ts t_id = free_track_id ts (t_id + 1)"
      using True by (subst free_track_id.simps) simp
    have "\<And>j. t_id \<le> j \<Longrightarrow> j < free_track_id ts (t_id + 1) \<Longrightarrow> j \<in> fst ` set ts"
    proof -
      fix j assume a: "t_id \<le> j" "j < free_track_id ts (t_id + 1)"
      show "j \<in> fst ` set ts"
      proof (cases "j = t_id")
        case True with \<open>t_id \<in> fst ` set ts\<close> show ?thesis by simp
      next
        case False
        with a have "t_id + 1 \<le> j" by simp
        with IH a show ?thesis by blast
      qed
    qed
    with IH eq show ?thesis by auto
  next
    case False
    then have "free_track_id ts t_id = t_id"
      by (subst free_track_id.simps) simp
    with False show ?thesis by auto
  qed
qed

text \<open>
  Claim C7, as amended. The claim says that \<^verbatim>\<open>add_track\<close> assigns the smallest
  non-negative integer not in use. The search of the code starts at the number of tracks,
  not at 0: the new id is the smallest integer from \<^verbatim>\<open>len(self.tracks)\<close> on that is
  not yet a track id. The track is stored under that id, the other entries are unchanged, and
  the id is returned. A bare sound generator is wrapped in a new instrument on a new
  wavetable.
\<close>

theorem add_track_id:
  assumes "add_track self src w = (t_id, self', w')"
  shows "int (length (tracks self)) \<le> t_id \<and> t_id \<notin> fst ` set (tracks self)
       \<and> (\<forall>j. int (length (tracks self)) \<le> j \<and> j < t_id \<longrightarrow> j \<in> fst ` set (tracks self))
       \<and> map_of (tracks self') t_id =
             Some \<lparr>tr_id = t_id,
                   instrument = (case src of OfInstrument i \<Rightarrow> i
                                 | OfGenerator g \<Rightarrow> \<lparr>wavetable_ref = next_wavetable w\<rparr>)\<rparr>
       \<and> (\<forall>j. j \<noteq> t_id \<longrightarrow> map_of (tracks self') j = map_of (tracks self) j)"
proof -
  let ?ins = "case src of OfInstrument i \<Rightarrow> i | OfGenerator g \<Rightarrow> \<lparr>wavetable_ref = next_wavetable w\<rparr>"
  have t: "t_id = free_track_id (tracks self) (int (length (tracks self)))"
    using assms by (auto simp: add_track_def Let_def split: prod.splits)
  have u: "tracks self' = AList.update t_id \<lparr>tr_id = t_id, instrument = ?ins\<rparr> (tracks self)"
    using assms
    by (auto simp: add_track_def Wavetable_init_def Let_def split: prod.splits track_source.splits)
  have m: "map_of (tracks self') = (map_of (tracks self))(t_id \<mapsto> \<lparr>tr_id = t_id, instrument = ?ins\<rparr>)"
    by (simp add: u update_conv')
  show ?thesis
    using free_track_id_spec[of "int (length (tracks self))" "tracks self"] t m by auto
qed

text \<open>On the two drum tracks 0 and 1 a third track on the clap sample gets the id 2, on a new
  wavetable.\<close>

theorem add_track_id_witness:
  "fst (add_track (drum_timeline []) (OfGenerator clap) drum_world) = 2 \<and>
   map_of (tracks (fst (snd (add_track (drum_timeline []) (OfGenerator clap) drum_world)))) 2
     = Some \<lparr>tr_id = 2, instrument = \<lparr>wavetable_ref = 2\<rparr>\<rparr>"
  using add_track_id[of "drum_timeline []" "OfGenerator clap" drum_world
     "fst (add_track (drum_timeline []) (OfGenerator clap) drum_world)"
     "fst (snd (add_track (drum_timeline []) (OfGenerator clap) drum_world))"
     "snd (snd (add_track (drum_timeline []) (OfGenerator clap) drum_world))"]
  by (simp add: add_track_def free_track_id.simps Wavetable_init_def Let_def example_defs)

text \<open>A timeline built from one track with the id 1 holds no track 0, and
  \<^verbatim>\<open>add_track\<close> assigns 2.\<close>

theorem add_track_smallest_counterexample:
  "Timeline_init [\<lparr>tr_id = 1, instrument = kick_instrument\<rparr>] [] True 2 120
     = Inr \<lparr>tracks = [(1, \<lparr>tr_id = 1, instrument = kick_instrument\<rparr>)], notes = [],
            keep_sorted = True, sr = 2, bpm = 120\<rparr>
   \<and> fst (add_track \<lparr>tracks = [(1, \<lparr>tr_id = 1, instrument = kick_instrument\<rparr>)], notes = [],
                      keep_sorted = True, sr = 2, bpm = 120\<rparr>
         (OfGenerator clap) drum_world) = 2
   \<and> 0 \<notin> fst ` set [(1 :: int, \<lparr>tr_id = 1, instrument = kick_instrument\<rparr>)]"
  by (simp add: Timeline_init_def populate_notes_def add_track_def free_track_id.simps
        Wavetable_init_def Let_def)

subsection \<open>Track id collisions\<close>

text \<open>
  Claim C8. \<^verbatim>\<open>populate_tracks\<close> raises \<^verbatim>\<open>Warning\<close> at a track whose id is in use, before
  the assignment: the old track stays, and the tracks after it in the list are not added.
  Here track 1 of the drum timeline is given again, followed by a track 2.
\<close>

theorem populate_tracks_collision_raises:
  "populate_tracks (drum_timeline [])
      [\<lparr>tr_id = 1, instrument = kick_instrument\<rparr>, \<lparr>tr_id = 2, instrument = clap_instrument\<rparr>]
     = (Some Warning, drum_timeline [])"
  by (simp add: example_defs)


subsection \<open>Sorted insertion of notes\<close>

lemma sorted_map_nth_mono:
  "sorted (map key a) \<Longrightarrow> i \<le> j \<Longrightarrow> j < length a \<Longrightarrow> key (a ! i) \<le> key (a ! j)"
  using sorted_nth_mono[of "map key a" i j] by simp

declare bisect_right.simps [simp del]

lemma bisect_right_spec:
  "sorted (map key a) \<Longrightarrow> lo \<le> hi \<Longrightarrow> hi \<le> length a \<Longrightarrow> (\<forall>i<lo. key (a ! i) \<le> x) \<Longrightarrow>
         (\<forall>i. hi \<le> i \<and> i < length a \<longrightarrow> x < key (a ! i)) \<Longrightarrow>
         lo \<le> bisect_right a x lo hi key \<and> bisect_right a x lo hi key \<le> hi \<and>
         (\<forall>i<bisect_right a x lo hi key. key (a ! i) \<le> x) \<and>
         (\<forall>i. bisect_right a x lo hi key \<le> i \<and> i < length a \<longrightarrow> x < key (a ! i))"
proof (induction a x lo hi key rule: bisect_right.induct)
  case (1 a x lo hi key)
  note srt = "1.prems"(1)
  show ?case
  proof (cases "lo < hi")
    case False
    then have "bisect_right a x lo hi key = lo"
      by (subst bisect_right.simps) simp
    with False "1.prems" show ?thesis by auto
  next
    case True
    define mid where "mid = (lo + hi) div 2"
    have mid: "lo \<le> mid" "mid < hi" using True by (auto simp: mid_def)
    show ?thesis
    proof (cases "x < key (a ! mid)")
      case lt: True
      have eq: "bisect_right a x lo hi key = bisect_right a x lo mid key"
        using True lt by (subst bisect_right.simps) (simp add: mid_def Let_def)
      have up: "\<forall>i. mid \<le> i \<and> i < length a \<longrightarrow> x < key (a ! i)"
        using lt sorted_map_nth_mono[OF srt] by (meson less_le_trans)
      have "lo \<le> bisect_right a x lo mid key \<and> bisect_right a x lo mid key \<le> mid \<and>
         (\<forall>i<bisect_right a x lo mid key. key (a ! i) \<le> x) \<and>
         (\<forall>i. bisect_right a x lo mid key \<le> i \<and> i < length a \<longrightarrow> x < key (a ! i))"
        using "1.IH"(1)[OF True mid_def lt srt] mid "1.prems" up by simp
      with eq mid show ?thesis by auto
    next
      case ge: False
      have eq: "bisect_right a x lo hi key = bisect_right a x (mid + 1) hi key"
        using True ge by (subst bisect_right.simps) (simp add: mid_def Let_def)
      have mlen: "mid < length a" using mid "1.prems" by simp
      have low: "\<forall>i<mid + 1. key (a ! i) \<le> x"
      proof (intro allI impI)
        fix i assume "i < mid + 1"
        then have "key (a ! i) \<le> key (a ! mid)"
          using sorted_map_nth_mono[OF srt, of i mid] mlen by simp
        with ge show "key (a ! i) \<le> x" by simp
      qed
      have "mid + 1 \<le> bisect_right a x (mid + 1) hi key \<and> bisect_right a x (mid + 1) hi key \<le> hi \<and>
         (\<forall>i<bisect_right a x (mid + 1) hi key. key (a ! i) \<le> x) \<and>
         (\<forall>i. bisect_right a x (mid + 1) hi key \<le> i \<and> i < length a \<longrightarrow> x < key (a ! i))"
        using "1.IH"(2)[OF True mid_def ge srt] mid "1.prems" low by simp
      with eq mid show ?thesis by auto
    qed
  qed
qed

lemma bisect_insort_split:
  assumes "sorted (map key a)"
  shows "\<exists>xs ys. a = xs @ ys \<and> bisect_insort a x key = xs @ x # ys \<and>
           (\<forall>e\<in>set xs. key e \<le> key x) \<and> (\<forall>e\<in>set ys. key x < key e)"
proof -
  define r where "r = bisect_right a (key x) 0 (length a) key"
  have r: "r \<le> length a" "\<forall>i<r. key (a ! i) \<le> key x"
          "\<forall>i. r \<le> i \<and> i < length a \<longrightarrow> key x < key (a ! i)"
  proof -
    have "\<forall>i. length a \<le> i \<and> i < length a \<longrightarrow> key x < key (a ! i)" by auto
    from bisect_right_spec[OF assms _ _ _ this, where lo = 0]
    show "r \<le> length a" "\<forall>i<r. key (a ! i) \<le> key x"
          "\<forall>i. r \<le> i \<and> i < length a \<longrightarrow> key x < key (a ! i)"
      by (simp_all add: r_def)
  qed
  have 1: "\<forall>e\<in>set (take r a). key e \<le> key x"
    using r by (auto simp: in_set_conv_nth)
  have 2: "\<forall>e\<in>set (drop r a). key x < key e"
    using r by (auto simp: in_set_conv_nth)
  have "a = take r a @ drop r a" by simp
  moreover have "bisect_insort a x key = take r a @ x # drop r a"
    by (simp add: bisect_insort_def r_def Let_def)
  ultimately show ?thesis using 1 2 by blast
qed

lemma bisect_insort_sorted:
  assumes "sorted (map key a)"
  shows "sorted (map key (bisect_insort a x key))"
proof -
  obtain xs ys where s: "a = xs @ ys" "bisect_insort a x key = xs @ x # ys"
     "\<forall>e\<in>set xs. key e \<le> key x" "\<forall>e\<in>set ys. key x < key e"
    using bisect_insort_split[OF assms] by blast
  from assms s(1) have "sorted (map key xs)" "sorted (map key ys)"
    by (auto simp: sorted_append)
  with s show ?thesis
    by (fastforce simp: sorted_append)
qed

lemma foldl_bisect_insort_sorted:
  "sorted (map key a) \<Longrightarrow> sorted (map key (foldl (\<lambda>a n. bisect_insort a n key) a ns))"
  by (induction ns arbitrary: a) (auto simp: bisect_insort_sorted)

lemma populate_tracks_frame:
  "populate_tracks self ts = (r, self') \<Longrightarrow>
     notes self' = notes self \<and> keep_sorted self' = keep_sorted self \<and> sr self' = sr self \<and> bpm self' = bpm self"
  by (induction ts arbitrary: self) (auto split: if_splits)

lemma Timeline_init_sorted:
  assumes "Timeline_init ts ns True sr0 bpm0 = Inr self"
  shows "keep_sorted self \<and> sorted (map start_time (notes self))"
proof -
  obtain s1 where p: "populate_tracks \<lparr>tracks = [], notes = [], keep_sorted = True, sr = sr0, bpm = bpm0\<rparr> ts = (None, s1)"
    and s: "self = populate_notes s1 ns"
    using assms by (auto simp: Timeline_init_def split: prod.splits option.splits)
  from populate_tracks_frame[OF p] have "notes s1 = []" "keep_sorted s1" by auto
  then show ?thesis
    using foldl_bisect_insort_sorted[of start_time "[]" ns] by (simp add: s populate_notes_def)
qed

lemma add_note_sorted:
  "keep_sorted self \<and> sorted (map start_time (notes self)) \<Longrightarrow>
   keep_sorted (add_note self n) \<and> sorted (map start_time (notes (add_note self n)))"
  by (simp add: add_note_def bisect_insort_sorted)

lemma foldl_add_note_sorted:
  "keep_sorted self \<and> sorted (map start_time (notes self)) \<Longrightarrow>
   keep_sorted (foldl add_note self ms) \<and> sorted (map start_time (notes (foldl add_note self ms)))"
proof (induction ms arbitrary: self)
  case Nil then show ?case by simp
next
  case (Cons m ms)
  from add_note_sorted[OF Cons.prems] Cons.IH show ?case by simp
qed

text \<open>
  Claim C3. On a timeline constructed with \<^verbatim>\<open>keep_sorted=True\<close>, after any sequence of
  \<^verbatim>\<open>add_note\<close> calls the notes are in non-decreasing order of start time, and one more
  \<^verbatim>\<open>add_note\<close> puts the new note after every note that starts no later and before
  every note that starts later.
\<close>

theorem add_note_keeps_sorted_stable:
  assumes "Timeline_init ts ns True sr0 bpm0 = Inr self"
  shows "sorted (map start_time (notes (foldl add_note self ms))) \<and>
         (\<exists>xs ys. notes (foldl add_note self ms) = xs @ ys \<and>
                  notes (add_note (foldl add_note self ms) n) = xs @ n # ys \<and>
                  (\<forall>e\<in>set xs. start_time e \<le> start_time n) \<and>
                  (\<forall>e\<in>set ys. start_time n < start_time e))"
proof -
  have inv: "keep_sorted (foldl add_note self ms) \<and> sorted (map start_time (notes (foldl add_note self ms)))"
    using foldl_add_note_sorted[OF Timeline_init_sorted[OF assms]] .
  then have "notes (add_note (foldl add_note self ms) n) = bisect_insort (notes (foldl add_note self ms)) n start_time"
    by (simp add: add_note_def)
  with inv bisect_insort_split[of start_time "notes (foldl add_note self ms)" n]
  show ?thesis by auto
qed

text \<open>A kick at time 1 and a clap at time 0 are added, then a clap at time 1: it goes after the
  kick.\<close>

theorem add_note_keeps_sorted_stable_witness:
  "Timeline_init [] [] True 2 120
     = Inr \<lparr>tracks = [], notes = [], keep_sorted = True, sr = 2, bpm = 120\<rparr> \<and>
   notes (add_note (foldl add_note \<lparr>tracks = [], notes = [], keep_sorted = True, sr = 2, bpm = 120\<rparr>
                      [Note_init 0 (StrKey ''kick'') 1 (1/2) 1 True,
                       Note_init 1 (StrKey ''clap'') 0 (1/2) 1 True])
                   (Note_init 1 (StrKey ''clap'') 1 (1/2) 1 True))
     = [Note_init 1 (StrKey ''clap'') 0 (1/2) 1 True,
        Note_init 0 (StrKey ''kick'') 1 (1/2) 1 True,
        Note_init 1 (StrKey ''clap'') 1 (1/2) 1 True]"
proof -
  have init: "Timeline_init [] [] True 2 120
     = Inr \<lparr>tracks = [], notes = [], keep_sorted = True, sr = 2, bpm = 120\<rparr>"
    by code_simp
  have run: "notes (add_note (foldl add_note \<lparr>tracks = [], notes = [], keep_sorted = True, sr = 2, bpm = 120\<rparr>
                      [Note_init 0 (StrKey ''kick'') 1 (1/2) 1 True,
                       Note_init 1 (StrKey ''clap'') 0 (1/2) 1 True])
                   (Note_init 1 (StrKey ''clap'') 1 (1/2) 1 True))
     = [Note_init 1 (StrKey ''clap'') 0 (1/2) 1 True,
        Note_init 0 (StrKey ''kick'') 1 (1/2) 1 True,
        Note_init 1 (StrKey ''clap'') 1 (1/2) 1 True]"
    by code_simp
  from add_note_keeps_sorted_stable[OF init,
     of "[Note_init 0 (StrKey ''kick'') 1 (1/2) 1 True, Note_init 1 (StrKey ''clap'') 0 (1/2) 1 True]"
        "Note_init 1 (StrKey ''clap'') 1 (1/2) 1 True"] init run
  show ?thesis by blast
qed

subsection \<open>Wavetable lookups\<close>

lemma getitem_fst: "fst (Wavetable_getitem self k w) = lookup_val w self k"
  by (simp add: Wavetable_getitem_def Wavetable_get_sound_def lookup_val_def Let_def split: option.splits)

lemma getitem_lookup_val:
  "lookup_val (snd (Wavetable_getitem self k w)) s' k' = lookup_val w s' k'"
  by (simp add: Wavetable_getitem_def Wavetable_get_sound_def lookup_val_def Let_def split: option.splits)

lemma getitem_frame:
  "arrays (snd (Wavetable_getitem self k w)) = arrays w"
  "next_array (snd (Wavetable_getitem self k w)) = next_array w"
  "next_wavetable (snd (Wavetable_getitem self k w)) = next_wavetable w"
  "wt_sr (wavetables (snd (Wavetable_getitem self k w)) s') = wt_sr (wavetables w s')"
  "sound_generator (wavetables (snd (Wavetable_getitem self k w)) s') = sound_generator (wavetables w s')"
  by (simp_all add: Wavetable_getitem_def Wavetable_get_sound_def Let_def split: option.splits)

lemma getitem_cache:
  "wavetable (wavetables (snd (Wavetable_getitem self k w)) self) k = Some (lookup_val w self k)"
  by (simp add: Wavetable_getitem_def Wavetable_get_sound_def lookup_val_def Let_def split: option.splits)

lemma getitem_dom:
  "dom (wavetable (wavetables (snd (Wavetable_getitem self k w)) self)) =
     insert k (dom (wavetable (wavetables w self)))"
  by (auto simp: Wavetable_getitem_def Wavetable_get_sound_def Let_def split: option.splits)

lemma getitem_trace:
  "trace (snd (Wavetable_getitem self k w)) =
     trace w @ (if k \<in> dom (wavetable (wavetables w self)) then [] else [GetSound self k])"
  by (auto simp: Wavetable_getitem_def Wavetable_get_sound_def Let_def split: option.splits)

lemma lookups_spec:
  "lookups self ks w = (vs, w') \<Longrightarrow>
     vs = map (lookup_val w self) ks \<and>
     (\<forall>s' k'. lookup_val w' s' k' = lookup_val w s' k') \<and>
     arrays w' = arrays w \<and>
     dom (wavetable (wavetables w' self)) = dom (wavetable (wavetables w self)) \<union> set ks \<and>
     (\<exists>evs. trace w' = trace w @ evs \<and> distinct evs \<and>
            set evs = GetSound self ` (set ks - dom (wavetable (wavetables w self))))"
proof (induction ks arbitrary: w vs)
  case Nil
  then show ?case by simp
next
  case (Cons k ks)
  define w1 where "w1 = snd (Wavetable_getitem self k w)"
  obtain vs1 where r: "lookups self ks w1 = (vs1, w')" and v: "vs = lookup_val w self k # vs1"
    using Cons.prems getitem_fst[of self k w]
    by (auto simp: w1_def Let_def split: prod.splits)
  note IH = Cons.IH[OF r]
  from IH obtain evs where e: "trace w' = trace w1 @ evs" "distinct evs"
      "set evs = GetSound self ` (set ks - dom (wavetable (wavetables w1 self)))"
    by blast
  have d1: "dom (wavetable (wavetables w1 self)) = insert k (dom (wavetable (wavetables w self)))"
    by (simp add: w1_def getitem_dom)
  let ?new = "if k \<in> dom (wavetable (wavetables w self)) then [] else [GetSound self k]"
  have t1: "trace w1 = trace w @ ?new"
    by (simp add: w1_def getitem_trace)
  have "trace w' = trace w @ (?new @ evs)"
    using e(1) t1 by simp
  moreover have "distinct (?new @ evs)"
    using e(2,3) d1 by auto
  moreover have "set (?new @ evs) = GetSound self ` (set (k # ks) - dom (wavetable (wavetables w self)))"
    using e(3) d1 by auto
  ultimately have tr: "\<exists>evs. trace w' = trace w @ evs \<and> distinct evs \<and>
            set evs = GetSound self ` (set (k # ks) - dom (wavetable (wavetables w self)))"
    by blast
  have "vs = map (lookup_val w self) (k # ks)"
    using v IH by (simp add: w1_def getitem_lookup_val)
  moreover have "\<forall>s' k'. lookup_val w' s' k' = lookup_val w s' k'"
    using IH by (simp add: w1_def getitem_lookup_val)
  moreover have "arrays w' = arrays w"
    using IH by (simp add: w1_def getitem_frame)
  moreover have "dom (wavetable (wavetables w' self)) = dom (wavetable (wavetables w self)) \<union> set (k # ks)"
    using IH d1 by auto
  ultimately show ?case using tr by blast
qed

lemma Wavetable_init_fresh:
  "Wavetable_init g sr0 w0 = (self, w) \<Longrightarrow>
     wavetable (wavetables w self) = Map.empty \<and> sound_generator (wavetables w self) = g \<and>
     wt_sr (wavetables w self) = sr0 \<and> arrays w = arrays w0 \<and> trace w = trace w0"
  by (auto simp: Wavetable_init_def)

text \<open>
  Claim C4. From its construction on and over any sequence of lookups, a wavetable calls
  its sound generator once for each distinct key looked up, and never twice for a key;
  lookups of the same key return the same array, and no buffer of the store changes.
\<close>

theorem wavetable_generates_once:
  assumes "Wavetable_init g sr0 w0 = (self, w)" and "lookups self ks w = (vs, w')"
  shows "(\<exists>evs. trace w' = trace w0 @ evs \<and> distinct evs \<and> set evs = GetSound self ` set ks) \<and>
         length vs = length ks \<and>
         (\<forall>i<length ks. \<forall>j<length ks. ks ! i = ks ! j \<longrightarrow> vs ! i = vs ! j) \<and>
         arrays w' = arrays w0"
  using lookups_spec[OF assms(2)] Wavetable_init_fresh[OF assms(1)] by auto

text \<open>Three lookups with two distinct keys on a new wavetable over the kick sample: two calls
  of the generator.\<close>

theorem wavetable_generates_once_witness:
  "fst (lookups 2 [StrKey ''C4'', IntKey 60, StrKey ''C4''] (snd (Wavetable_init kick 2 drum_world)))
     = [Array \<lparr>base = 0, offset = 0, shape = 3\<rparr>, Array \<lparr>base = 0, offset = 0, shape = 3\<rparr>,
        Array \<lparr>base = 0, offset = 0, shape = 3\<rparr>] \<and>
   trace (snd (lookups 2 [StrKey ''C4'', IntKey 60, StrKey ''C4''] (snd (Wavetable_init kick 2 drum_world))))
     = [GetSound 2 (StrKey ''C4''), GetSound 2 (IntKey 60)]"
  using wavetable_generates_once[of kick 2 drum_world
     "fst (Wavetable_init kick 2 drum_world)" "snd (Wavetable_init kick 2 drum_world)"
     "[StrKey ''C4'', IntKey 60, StrKey ''C4'']"
     "fst (lookups 2 [StrKey ''C4'', IntKey 60, StrKey ''C4''] (snd (Wavetable_init kick 2 drum_world)))"
     "snd (lookups 2 [StrKey ''C4'', IntKey 60, StrKey ''C4''] (snd (Wavetable_init kick 2 drum_world)))"]
  by (simp add: Wavetable_init_def Wavetable_getitem_def Wavetable_get_sound_def Let_def example_defs)

text \<open>
  Claim C10. \<^verbatim>\<open>Wavetable.get_sound\<close> passes only the sample rate to the generator, so its
  value is the same for any two keys; on a wavetable, from its construction on and after any
  lookups, the lookups of any two keys return the same array, the one the generator returns.
\<close>

theorem wavetable_constant_across_pitches:
  assumes "Wavetable_init g sr0 w0 = (self, w)" and "lookups self ks w = (vs, w')"
  shows "fst (Wavetable_get_sound self p1 w') = fst (Wavetable_get_sound self p2 w') \<and>
         fst (Wavetable_getitem self p1 w') = fst (Wavetable_getitem self p2 w') \<and>
         (\<forall>v\<in>set vs. v = get_sound g (Some sr0))"
proof -
  have lv: "\<And>k. lookup_val w self k = get_sound g (Some sr0)"
    using Wavetable_init_fresh[OF assms(1)] by (simp add: lookup_val_def)
  have "\<And>k. lookup_val w' self k = get_sound g (Some sr0)"
    using lookups_spec[OF assms(2)] lv by simp
  moreover have "\<forall>v\<in>set vs. v = get_sound g (Some sr0)"
    using lookups_spec[OF assms(2)] lv by auto
  ultimately show ?thesis
    by (simp add: getitem_fst Wavetable_get_sound_def)
qed

text \<open>After a lookup of C4 on a new wavetable over the clap sample, the keys C4 and 61 give
  the same array.\<close>

theorem wavetable_constant_across_pitches_witness:
  "fst (Wavetable_getitem 2 (StrKey ''C4'')
          (snd (lookups 2 [StrKey ''C4''] (snd (Wavetable_init clap 2 drum_world)))))
     = Array \<lparr>base = 1, offset = 0, shape = 2\<rparr> \<and>
   fst (Wavetable_getitem 2 (IntKey 61)
          (snd (lookups 2 [StrKey ''C4''] (snd (Wavetable_init clap 2 drum_world)))))
     = Array \<lparr>base = 1, offset = 0, shape = 2\<rparr>"
  using wavetable_constant_across_pitches[of clap 2 drum_world
     "fst (Wavetable_init clap 2 drum_world)" "snd (Wavetable_init clap 2 drum_world)"
     "[StrKey ''C4'']"
     "fst (lookups 2 [StrKey ''C4''] (snd (Wavetable_init clap 2 drum_world)))"
     "snd (lookups 2 [StrKey ''C4''] (snd (Wavetable_init clap 2 drum_world)))"
     "StrKey ''C4''" "IntKey 61"]
  by (simp add: Wavetable_init_def Wavetable_getitem_def Wavetable_get_sound_def Let_def example_defs)

subsection \<open>Rendering one note\<close>

lemma lookup_val_trace [simp]: "lookup_val (w\<lparr>trace := t\<rparr>) = lookup_val w"
  by (simp add: lookup_val_def fun_eq_iff split: option.splits)

lemma read_array_trace [simp]: "read_array (w\<lparr>trace := t\<rparr>) = read_array w"
  by (simp add: read_array_def fun_eq_iff)

lemma slice_index_le: "slice_index len i \<le> len"
  by (auto simp: slice_index_def)

lemma slice_view_prefix:
  "slice_view a 0 k = a\<lparr>shape := slice_index (shape a) k\<rparr>"
  by (cases a) (simp add: slice_view_def slice_index_def Let_def)

text \<open>What a successful play_note returns\<close>
lemma play_note_Inr:
  assumes "play_note self n w = Inr (sound, w')"
  shows "\<exists>a. lookup_val w (wavetable_ref self) (pitch n) = Array a \<and>
     base sound = next_array w \<and> offset sound = 0 \<and>
     shape sound = (if time_wise n
                    then slice_index (length (read_array w a))
                           (py_int (duration n * of_int (wt_sr (wavetables w (wavetable_ref self)))))
                    else length (read_array w a)) \<and>
     arrays w' = (arrays w)(next_array w := map (\<lambda>x. x * velocity n) (read_array w a)) \<and>
     next_array w' = Suc (next_array w) \<and>
     wavetables w' = wavetables (snd (Wavetable_getitem (wavetable_ref self) (pitch n) w)) \<and>
     next_wavetable w' = next_wavetable w"
proof -
  define w0 where "w0 = w\<lparr>trace := trace w @ [PlayNote self n]\<rparr>"
  define w1 where "w1 = snd (Wavetable_getitem (wavetable_ref self) (pitch n) w0)"
  have f: "fst (Wavetable_getitem (wavetable_ref self) (pitch n) w0) = lookup_val w (wavetable_ref self) (pitch n)"
    by (simp add: getitem_fst w0_def)
  have wts: "wavetables w1 = wavetables (snd (Wavetable_getitem (wavetable_ref self) (pitch n) w))"
    by (simp add: w1_def w0_def Wavetable_getitem_def Wavetable_get_sound_def Let_def split: option.splits)
  have fr: "arrays w1 = arrays w" "next_array w1 = next_array w" "next_wavetable w1 = next_wavetable w"
       "wt_sr (wavetables w1 (wavetable_ref self)) = wt_sr (wavetables w (wavetable_ref self))"
    by (simp_all add: w1_def getitem_frame w0_def)
  have rd: "\<And>a. read_array w1 a = read_array w a"
    by (simp add: read_array_def fr)
  from assms obtain a where a: "lookup_val w (wavetable_ref self) (pitch n) = Array a"
    using f by (auto simp: play_note_def w0_def[symmetric] Let_def split: prod.splits pyval.splits)
  have "Wavetable_getitem (wavetable_ref self) (pitch n) w0 = (Array a, w1)"
    using f a by (simp add: w1_def prod_eq_iff)
  with assms have
    s: "sound = (if time_wise n
           then slice_view (fst (np_mul a (velocity n) w1)) 0
                  (py_int (duration n * of_int (wt_sr (wavetables (snd (np_mul a (velocity n) w1)) (wavetable_ref self)))))
           else fst (np_mul a (velocity n) w1))"
    and w: "w' = snd (np_mul a (velocity n) w1)"
    by (auto simp: play_note_def w0_def[symmetric] Let_def split: prod.splits)
  show ?thesis
    using a by (simp add: s w np_mul_def new_array_def slice_view_prefix fr rd wts getitem_frame)
qed

lemma play_note_Inl:
  "play_note self n w = Inl e \<Longrightarrow> lookup_val w (wavetable_ref self) (pitch n) = PyNone \<and> e = TypeError"
  using getitem_fst[of "wavetable_ref self" "pitch n" "w\<lparr>trace := trace w @ [PlayNote self n]\<rparr>"]
  by (auto simp: play_note_def Let_def split: prod.splits pyval.splits)

lemma play_note_total:
  "lookup_val w (wavetable_ref self) (pitch n) = Array a \<Longrightarrow> \<exists>sound w'. play_note self n w = Inr (sound, w')"
  using play_note_Inl[of self n w] by (cases "play_note self n w") auto

lemma lookup_val_wavetables:
  "wavetables w' = wavetables w \<Longrightarrow> lookup_val w' = lookup_val w"
  by (intro ext) (simp add: lookup_val_def split: option.splits)

lemma play_note_lookup_val:
  assumes "play_note self n w = Inr (sound, w')"
  shows "lookup_val w' s k = lookup_val w s k"
proof -
  from play_note_Inr[OF assms]
  have "wavetables w' = wavetables (snd (Wavetable_getitem (wavetable_ref self) (pitch n) w))"
    by blast
  from lookup_val_wavetables[OF this] show ?thesis
    by (simp add: getitem_lookup_val)
qed

lemma play_note_read_sound:
  assumes "play_note self n w = Inr (sound, w')"
    and "lookup_val w (wavetable_ref self) (pitch n) = Array a"
  shows "read_array w' sound = take (shape sound) (map (\<lambda>x. x * velocity n) (read_array w a))"
    and "length (read_array w' sound) = shape sound"
proof -
  from play_note_Inr[OF assms(1)] assms(2)
  have b: "base sound = next_array w" "offset sound = 0"
    and sh: "shape sound \<le> length (read_array w a)"
    and ar: "arrays w' = (arrays w)(next_array w := map (\<lambda>x. x * velocity n) (read_array w a))"
    using slice_index_le by (auto split: if_splits)
  show "read_array w' sound = take (shape sound) (map (\<lambda>x. x * velocity n) (read_array w a))"
    by (simp add: read_array_def[of w' sound] b ar)
  with sh show "length (read_array w' sound) = shape sound"
    by simp
qed

text \<open>
  Claim C5. Two calls of \<^verbatim>\<open>play_note\<close> for the same key, on a store where the buffer that
  the lookup returns is allocated: after each call the wavetable holds the same array for the
  key, with the samples it had before the first call; no buffer that existed before the calls
  has changed; each result lies in a buffer of its own, allocated by the call, and holds the
  cached samples times the velocity of its note, cut to its shape; the second call leaves
  the first result as it was.
\<close>

theorem play_note_keeps_cache:
  assumes p1: "play_note self n1 w = Inr (s1, w1)"
      and p2: "play_note self n2 w1 = Inr (s2, w2)"
      and same: "pitch n2 = pitch n1"
      and alloc: "\<forall>a. lookup_val w (wavetable_ref self) (pitch n1) = Array a \<longrightarrow> base a < next_array w"
  shows "\<exists>buf.
           wavetable (wavetables w1 (wavetable_ref self)) (pitch n1) = Some (Array buf) \<and>
           wavetable (wavetables w2 (wavetable_ref self)) (pitch n1) = Some (Array buf) \<and>
           read_array w1 buf = read_array w buf \<and> read_array w2 buf = read_array w buf \<and>
           (\<forall>a<next_array w. arrays w2 a = arrays w a) \<and>
           base s1 \<noteq> base buf \<and> base s2 \<noteq> base buf \<and> base s1 \<noteq> base s2 \<and>
           read_array w1 s1 = take (shape s1) (map (\<lambda>x. x * velocity n1) (read_array w buf)) \<and>
           read_array w2 s2 = take (shape s2) (map (\<lambda>x. x * velocity n2) (read_array w buf)) \<and>
           read_array w2 s1 = read_array w1 s1 \<and>
           shape s1 = (if time_wise n1
                       then slice_index (length (read_array w buf))
                              (py_int (duration n1 * of_int (wt_sr (wavetables w (wavetable_ref self)))))
                       else length (read_array w buf)) \<and>
           shape s2 = (if time_wise n2
                       then slice_index (length (read_array w buf))
                              (py_int (duration n2 * of_int (wt_sr (wavetables w (wavetable_ref self)))))
                       else length (read_array w buf))"
proof -
  let ?r = "wavetable_ref self" and ?k = "pitch n1"
  from play_note_Inr[OF p1] obtain buf where
    lv: "lookup_val w ?r ?k = Array buf" and
    b1: "base s1 = next_array w" and
    sh1: "shape s1 = (if time_wise n1
                    then slice_index (length (read_array w buf))
                           (py_int (duration n1 * of_int (wt_sr (wavetables w ?r))))
                    else length (read_array w buf))" and
    a1: "arrays w1 = (arrays w)(next_array w := map (\<lambda>x. x * velocity n1) (read_array w buf))" and
    n1: "next_array w1 = Suc (next_array w)" and
    wt1: "wavetables w1 = wavetables (snd (Wavetable_getitem ?r ?k w))"
    by blast
  have lv1: "lookup_val w1 ?r ?k = Array buf"
    using play_note_lookup_val[OF p1] lv by simp
  from play_note_Inr[OF p2] same lv1 have
    b2: "base s2 = next_array w1" and
    sh2: "shape s2 = (if time_wise n2
                    then slice_index (length (read_array w1 buf))
                           (py_int (duration n2 * of_int (wt_sr (wavetables w1 ?r))))
                    else length (read_array w1 buf))" and
    a2: "arrays w2 = (arrays w1)(next_array w1 := map (\<lambda>x. x * velocity n2) (read_array w1 buf))" and
    wt2: "wavetables w2 = wavetables (snd (Wavetable_getitem ?r ?k w1))"
    by auto
  have bb: "base buf < next_array w" using alloc lv by simp
  have r1: "read_array w1 buf = read_array w buf"
    using bb by (simp add: read_array_def a1)
  have r2: "read_array w2 buf = read_array w buf"
    using bb by (simp add: read_array_def a2 a1 n1)
  have c1: "wavetable (wavetables w1 ?r) ?k = Some (Array buf)"
    by (simp add: wt1 getitem_cache lv)
  have c2: "wavetable (wavetables w2 ?r) ?k = Some (Array buf)"
    by (simp add: wt2 getitem_cache lv1)
  have fr: "\<forall>a<next_array w. arrays w2 a = arrays w a"
    by (simp add: a2 a1 n1)
  have rs1: "read_array w1 s1 = take (shape s1) (map (\<lambda>x. x * velocity n1) (read_array w buf))"
    using play_note_read_sound(1)[OF p1 lv] .
  have rs2: "read_array w2 s2 = take (shape s2) (map (\<lambda>x. x * velocity n2) (read_array w buf))"
    using play_note_read_sound(1)[OF p2] lv1 same r1 by simp
  have rs3: "read_array w2 s1 = read_array w1 s1"
    by (simp add: read_array_def a2 b1 n1)
  have sr1: "wt_sr (wavetables w1 ?r) = wt_sr (wavetables w ?r)"
    by (simp add: wt1 getitem_frame)
  have sh2': "shape s2 = (if time_wise n2
                    then slice_index (length (read_array w buf))
                           (py_int (duration n2 * of_int (wt_sr (wavetables w ?r))))
                    else length (read_array w buf))"
    using sh2 r1 sr1 by simp
  have ne: "base s1 \<noteq> base buf" "base s2 \<noteq> base buf" "base s1 \<noteq> base s2"
    using b1 b2 n1 bb by simp_all
  show ?thesis
    using c1 c2 r1 r2 fr rs1 rs2 rs3 ne sh1 sh2' by blast
qed

text \<open>The kick sample \<open>[1, 2, 3]\<close> played at velocity 1/2 and then at velocity 2.\<close>

theorem play_note_keeps_cache_witness:
  "read_array
     (snd (projr (play_note kick_instrument (Note_init 0 (StrKey ''kick'') 0 (1/2) (1/2) False) drum_world)))
     (fst (projr (play_note kick_instrument (Note_init 0 (StrKey ''kick'') 0 (1/2) (1/2) False) drum_world)))
     = [1/2, 1, 3/2] \<and>
   rendered_samples
     (map_sum id (\<lambda>(a, w). (a, drum_timeline [], w))
        (play_note kick_instrument (Note_init 0 (StrKey ''kick'') 0 (1/2) 2 False)
           (snd (projr (play_note kick_instrument (Note_init 0 (StrKey ''kick'') 0 (1/2) (1/2) False) drum_world)))))
     = Inr [2, 4, 6] \<and>
   lookup_val drum_world 0 (StrKey ''kick'') = Array \<lparr>base = 0, offset = 0, shape = 3\<rparr>"
  using play_note_keeps_cache[of kick_instrument "Note_init 0 (StrKey ''kick'') 0 (1/2) (1/2) False" drum_world
     "fst (projr (play_note kick_instrument (Note_init 0 (StrKey ''kick'') 0 (1/2) (1/2) False) drum_world))"
     "snd (projr (play_note kick_instrument (Note_init 0 (StrKey ''kick'') 0 (1/2) (1/2) False) drum_world))"
     "Note_init 0 (StrKey ''kick'') 0 (1/2) 2 False"
     "fst (projr (play_note kick_instrument (Note_init 0 (StrKey ''kick'') 0 (1/2) 2 False)
        (snd (projr (play_note kick_instrument (Note_init 0 (StrKey ''kick'') 0 (1/2) (1/2) False) drum_world)))))"
     "snd (projr (play_note kick_instrument (Note_init 0 (StrKey ''kick'') 0 (1/2) 2 False)
        (snd (projr (play_note kick_instrument (Note_init 0 (StrKey ''kick'') 0 (1/2) (1/2) False) drum_world)))))"]
  by (simp add: example_defs run_defs lookup_val_def)

subsection \<open>Mixing into the output buffer\<close>

lemma np_iadd_Inr:
  assumes "np_iadd t s w = Inr w'"
  shows "\<exists>zs. length zs = length (read_array w t) \<and> w' = write_array t zs w \<and>
           (length (read_array w s) = length (read_array w t) \<longrightarrow>
              zs = map2 (+) (read_array w t) (read_array w s))"
proof (cases "length (read_array w s) = length (read_array w t)")
  case True
  with assms have "w' = write_array t (map2 (+) (read_array w t) (read_array w s)) w"
    by (simp add: np_iadd_def Let_def)
  with True show ?thesis by (intro exI[of _ "map2 (+) (read_array w t) (read_array w s)"]) simp
next
  case False
  with assms obtain y where "w' = write_array t (map (\<lambda>x. x + y) (read_array w t)) w"
    by (auto simp: np_iadd_def Let_def split: list.splits)
  with False show ?thesis by (intro exI[of _ "map (\<lambda>x. x + y) (read_array w t)"]) simp
qed

lemma np_iadd_Inl:
  "np_iadd t s w = Inl e \<Longrightarrow> e = ValueError"
  by (auto simp: np_iadd_def Let_def split: if_splits list.splits)

lemma np_iadd_mismatch:
  "length (read_array w s) \<noteq> length (read_array w t) \<Longrightarrow> length (read_array w s) \<noteq> 1 \<Longrightarrow>
   np_iadd t s w = Inl ValueError"
  by (auto simp: np_iadd_def Let_def split: list.splits)

lemma write_array_frame [simp]:
  "wavetables (write_array t zs w) = wavetables w"
  "next_array (write_array t zs w) = next_array w"
  "next_wavetable (write_array t zs w) = next_wavetable w"
  "trace (write_array t zs w) = trace w"
  "a \<noteq> base t \<Longrightarrow> arrays (write_array t zs w) a = arrays w a"
  "arrays (write_array t zs w) (base t) =
     take (offset t) (arrays w (base t)) @ zs @ drop (offset t + shape t) (arrays w (base t))"
  by (simp_all add: write_array_def Let_def)

lemma slice_view_fields [simp]:
  "base (slice_view a s e) = base a"
  "offset (slice_view a s e) = offset a + slice_index (shape a) s"
  "shape (slice_view a s e) = slice_index (shape a) e - slice_index (shape a) s"
  by (simp_all add: slice_view_def Let_def)

lemma read_slice_whole:
  assumes "allocated_whole w a"
  shows "read_array w (slice_view a s e) =
           take (slice_index (shape a) e - slice_index (shape a) s)
                (drop (slice_index (shape a) s) (arrays w (base a)))"
    and "length (read_array w (slice_view a s e)) = slice_index (shape a) e - slice_index (shape a) s"
proof -
  from assms have o: "offset a = 0" and l: "shape a = length (arrays w (base a))"
    by (auto simp: allocated_whole_def)
  show "read_array w (slice_view a s e) =
           take (slice_index (shape a) e - slice_index (shape a) s)
                (drop (slice_index (shape a) s) (arrays w (base a)))"
    by (simp add: read_array_def o)
  have "slice_index (shape a) e \<le> length (arrays w (base a))"
    using slice_index_le[of "shape a" e] l by simp
  then show "length (read_array w (slice_view a s e)) = slice_index (shape a) e - slice_index (shape a) s"
    by (simp add: read_array_def o)
qed

lemma write_slice_whole:
  assumes "allocated_whole w a" and "length zs = length (read_array w (slice_view a s e))"
  shows "allocated_whole (write_array (slice_view a s e) zs w) a"
proof -
  from assms(1) have o: "offset a = 0" and l: "shape a = length (arrays w (base a))"
     and b: "base a < next_array w"
    by (auto simp: allocated_whole_def)
  have le: "slice_index (shape a) s \<le> length (arrays w (base a))"
           "slice_index (shape a) e \<le> length (arrays w (base a))"
    using slice_index_le[of "shape a"] l by simp_all
  have z: "length zs = slice_index (shape a) e - slice_index (shape a) s"
    using assms(2) read_slice_whole(2)[OF assms(1)] by simp
  show ?thesis
    using le by (auto simp: allocated_whole_def b o z l[symmetric] write_array_def Let_def)
qed

lemma render_notes_visit:
  assumes "\<not> start_time n + duration n \<le> st" and "\<not> en \<le> start_time n"
      and "map_of (tracks self) (track_id n) = Some track"
      and "play_note (instrument track) n w = Inr (sound, w1)"
  shows "render_notes self st en audio (n # ns) w =
           (case np_iadd (slice_view audio (py_int ((start_time n - st) * of_int (sr self)))
                                     (py_int ((start_time n - st) * of_int (sr self)) + int (shape sound)))
                         sound w1 of
              Inl e \<Rightarrow> Inl e
            | Inr w2 \<Rightarrow> render_notes self st en audio ns w2)"
  using assms by (simp add: Let_def)

lemma play_note_allocated_whole:
  assumes "play_note self n w = Inr (sound, w1)" and "allocated_whole w a"
  shows "allocated_whole w1 a" and "arrays w1 (base a) = arrays w (base a)"
    and "read_array w1 (slice_view a s e) = read_array w (slice_view a s e)"
proof -
  from play_note_Inr[OF assms(1)] obtain xs where
    ar: "arrays w1 = (arrays w)(next_array w := xs)" and nx: "next_array w1 = Suc (next_array w)"
    by blast
  from assms(2) have b: "base a < next_array w" by (simp add: allocated_whole_def)
  show 1: "arrays w1 (base a) = arrays w (base a)" using b by (simp add: ar)
  show "allocated_whole w1 a" using assms(2) b by (simp add: allocated_whole_def 1 nx)
  show "read_array w1 (slice_view a s e) = read_array w (slice_view a s e)"
    by (simp add: read_array_def 1)
qed

text \<open>frame of the loop\<close>
lemma render_notes_frame:
  "allocated_whole w audio \<Longrightarrow> render_notes self st en audio ns w = Inr w' \<Longrightarrow>
     allocated_whole w' audio \<and>
     (\<forall>s k. lookup_val w' s k = lookup_val w s k) \<and>
     (\<forall>s. wt_sr (wavetables w' s) = wt_sr (wavetables w s)) \<and>
     next_array w \<le> next_array w' \<and>
     (\<forall>a<next_array w. a \<noteq> base audio \<longrightarrow> arrays w' a = arrays w a)"
proof (induction ns arbitrary: w)
  case Nil
  then show ?case by simp
next
  case (Cons n ns)
  show ?case
  proof (cases "start_time n + duration n \<le> st")
    case True
    with Cons.prems have "render_notes self st en audio ns w = Inr w'" by simp
    from Cons.IH[OF Cons.prems(1) this] show ?thesis .
  next
    case skip: False
    show ?thesis
    proof (cases "en \<le> start_time n")
      case True
      with skip Cons.prems have "w' = w" by simp
      with Cons.prems show ?thesis by simp
    next
      case False
      with skip Cons.prems obtain track sound w1 where
        tr: "map_of (tracks self) (track_id n) = Some track" and
        pn: "play_note (instrument track) n w = Inr (sound, w1)"
        by (auto split: option.splits sum.splits)
      let ?sl = "slice_view audio (py_int ((start_time n - st) * of_int (sr self)))
                                     (py_int ((start_time n - st) * of_int (sr self)) + int (shape sound))"
      from render_notes_visit[OF skip False tr pn, of audio ns] Cons.prems(2)
      obtain w2 where ia: "np_iadd ?sl sound w1 = Inr w2"
        and rest: "render_notes self st en audio ns w2 = Inr w'"
        by (auto split: sum.splits)
      from np_iadd_Inr[OF ia] obtain zs where
        zs: "length zs = length (read_array w1 ?sl)" and w2: "w2 = write_array ?sl zs w1"
        by blast
      have aw1: "allocated_whole w1 audio"
        using play_note_allocated_whole(1)[OF pn Cons.prems(1)] .
      have aw2: "allocated_whole w2 audio"
        unfolding w2 using write_slice_whole[OF aw1 zs] .
      note IH = Cons.IH[OF aw2 rest]
      from play_note_Inr[OF pn] obtain xs where
        ar: "arrays w1 = (arrays w)(next_array w := xs)" and nx: "next_array w1 = Suc (next_array w)"
        and wt: "wavetables w1 = wavetables (snd (Wavetable_getitem (wavetable_ref (instrument track)) (pitch n) w))"
        by blast
      have lv: "\<forall>s k. lookup_val w2 s k = lookup_val w s k"
        using play_note_lookup_val[OF pn] lookup_val_wavetables[of w2 w1] by (simp add: w2)
      have sr2: "\<forall>s. wt_sr (wavetables w2 s) = wt_sr (wavetables w s)"
        by (simp add: w2 wt getitem_frame)
      have nx2: "next_array w2 = Suc (next_array w)" by (simp add: w2 nx)
      have ar2: "\<forall>a<next_array w. a \<noteq> base audio \<longrightarrow> arrays w2 a = arrays w a"
        by (simp add: w2 ar)
      show ?thesis
        using IH lv sr2 nx2 ar2 by auto
    qed
  qed
qed


text \<open>
  Claim C1, as amended. The claim says that a rendered buffer that extends past the end of
  the output buffer is clipped and the call succeeds. NumPy clips the slice of the output
  buffer, and the addition of the longer rendered buffer to the shorter slice raises
  \<^verbatim>\<open>ValueError\<close>: when the loop reaches a note whose rendered buffer has two or more
  samples and \<^verbatim>\<open>start_idx\<close> plus its length exceeds the length of the output buffer,
  \<^verbatim>\<open>generate_audio\<close> raises, and nothing of the note is rendered.
\<close>

theorem overflowing_note_raises:
  assumes "\<not> start_time n + duration n \<le> st" and "\<not> en \<le> start_time n"
      and "map_of (tracks self) (track_id n) = Some track"
      and "play_note (instrument track) n w = Inr (sound, w1)"
      and "allocated_whole w audio"
      and "int (shape audio) < py_int ((start_time n - st) * of_int (sr self)) + int (shape sound)"
      and "2 \<le> shape sound"
  shows "render_notes self st en audio (n # ns) w = Inl ValueError"
proof -
  define s where "s = py_int ((start_time n - st) * of_int (sr self))"
  define m where "m = shape sound"
  define L where "L = shape audio"
  have over: "int L < s + int m" and m2: "2 \<le> m"
    using assms(6,7) by (simp_all add: s_def m_def L_def)
  obtain a where lv: "lookup_val w (wavetable_ref (instrument track)) (pitch n) = Array a"
    using play_note_Inr[OF assms(4)] by blast
  have ls: "length (read_array w1 sound) = m"
    using play_note_read_sound(2)[OF assms(4) lv] by (simp add: m_def)
  have aw1: "allocated_whole w1 audio"
    using play_note_allocated_whole(1)[OF assms(4,5)] .
  have "length (read_array w1 (slice_view audio s (s + int m))) = slice_index L (s + int m) - slice_index L s"
    using read_slice_whole(2)[OF aw1] by (simp add: L_def)
  also have "\<dots> < m"
    using over m2 by (auto simp: slice_index_def)
  finally have ne: "length (read_array w1 sound) \<noteq> length (read_array w1 (slice_view audio s (s + int m)))"
    using ls by simp
  have "np_iadd (slice_view audio s (s + int m)) sound w1 = Inl ValueError"
    using np_iadd_mismatch[OF ne] ls m2 by simp
  then show ?thesis
    using render_notes_visit[OF assms(1-4), of audio ns] by (simp add: s_def m_def)
qed

text \<open>The kick sample of three frames, untrimmed, at time 0 in an output buffer of two
  frames.\<close>

theorem overflowing_note_raises_witness:
  "allocated_whole (snd (new_array [0, 0] drum_world)) \<lparr>base = 2, offset = 0, shape = 2\<rparr> \<and>
   render_notes (drum_timeline []) 0 1 \<lparr>base = 2, offset = 0, shape = 2\<rparr>
      [Note_init 0 (StrKey ''kick'') 0 (1/2) 1 False] (snd (new_array [0, 0] drum_world))
     = Inl ValueError"
  using overflowing_note_raises[of "Note_init 0 (StrKey ''kick'') 0 (1/2) 1 False" 0 1 "drum_timeline []"
     "\<lparr>tr_id = 0, instrument = kick_instrument\<rparr>" "snd (new_array [0, 0] drum_world)"
     "fst (projr (play_note kick_instrument (Note_init 0 (StrKey ''kick'') 0 (1/2) 1 False) (snd (new_array [0, 0] drum_world))))"
     "snd (projr (play_note kick_instrument (Note_init 0 (StrKey ''kick'') 0 (1/2) 1 False) (snd (new_array [0, 0] drum_world))))"
     "\<lparr>base = 2, offset = 0, shape = 2\<rparr>" "[]"]
  by (simp add: example_defs run_defs allocated_whole_def)

text \<open>The same note in a timeline, rendered over the window from 0 to 1: the call fails.\<close>

theorem overflowing_note_counterexample:
  "generate_audio (drum_timeline [Note_init 0 (StrKey ''kick'') 0 (1/2) 1 False]) 0 (Some 1) drum_world
     = Inl ValueError"
  by (simp add: example_defs run_defs)

lemma generate_audio_Inr:
  assumes "generate_audio self st (Some en) w = Inr (audio, self', w')"
  shows "0 \<le> py_int ((en - st) * of_int (sr self)) \<and>
         audio = \<lparr>base = next_array w, offset = 0, shape = nat (py_int ((en - st) * of_int (sr self)))\<rparr> \<and>
         self' = (if \<not> keep_sorted self then sort_notes self else self) \<and>
         render_notes self' st en audio (notes self')
           (w\<lparr>arrays := (arrays w)(next_array w := replicate (nat (py_int ((en - st) * of_int (sr self)))) 0),
              next_array := Suc (next_array w)\<rparr>) = Inr w'"
  using assms
  by (auto simp: generate_audio_def resolve_end_time_def np_zeros_def new_array_def sort_notes_def Let_def
           split: if_splits sum.splits prod.splits)

text \<open>
  Claim C6, as amended. The claim says \<^verbatim>\<open>round\<close>; the code converts with \<^verbatim>\<open>int\<close>, which
  truncates toward zero. When \<^verbatim>\<open>generate_audio\<close> returns, the output buffer has exactly
  \<^verbatim>\<open>int((end_time - start_time) * sr)\<close> samples. A note that the loop reaches, whose
  \<^verbatim>\<open>start_idx = int((note.start_time - start_time) * sr)\<close> is not negative and whose
  rendered buffer ends within the output buffer, is added sample by sample to the output
  from index \<^verbatim>\<open>start_idx\<close> on, and the samples before and after stay as they were.
\<close>

theorem buffer_length_and_offset:
  "(generate_audio self st (Some en) w0 = Inr (audio0, self', w') \<longrightarrow>
      int (shape audio0) = py_int ((en - st) * of_int (sr self)) \<and>
      length (read_array w' audio0) = shape audio0) \<and>
   (\<not> start_time n + duration n \<le> st \<and> \<not> en \<le> start_time n \<and>
    map_of (tracks self) (track_id n) = Some track \<and>
    play_note (instrument track) n w = Inr (sound, w1) \<and>
    allocated_whole w audio \<and>
    0 \<le> py_int ((start_time n - st) * of_int (sr self)) \<and>
    py_int ((start_time n - st) * of_int (sr self)) + int (shape sound) \<le> int (shape audio) \<longrightarrow>
      (\<exists>w2. render_notes self st en audio (n # ns) w = render_notes self st en audio ns w2 \<and>
            arrays w2 (base audio) =
              take (nat (py_int ((start_time n - st) * of_int (sr self)))) (arrays w (base audio)) @
              map2 (+) (take (shape sound)
                          (drop (nat (py_int ((start_time n - st) * of_int (sr self)))) (arrays w (base audio))))
                       (read_array w1 sound) @
              drop (nat (py_int ((start_time n - st) * of_int (sr self))) + shape sound) (arrays w (base audio))))"
proof (intro conjI impI)
  assume g: "generate_audio self st (Some en) w0 = Inr (audio0, self', w')"
  let ?L = "py_int ((en - st) * of_int (sr self))"
  let ?w1 = "w0\<lparr>arrays := (arrays w0)(next_array w0 := replicate (nat ?L) 0), next_array := Suc (next_array w0)\<rparr>"
  from generate_audio_Inr[OF g] have
    nn: "0 \<le> ?L" and au: "audio0 = \<lparr>base = next_array w0, offset = 0, shape = nat ?L\<rparr>"
    and r: "render_notes self' st en audio0 (notes self') ?w1 = Inr w'"
    by auto
  show "int (shape audio0) = ?L" using nn au by simp
  have "allocated_whole ?w1 audio0"
    by (simp add: allocated_whole_def au)
  from render_notes_frame[OF this r] have "allocated_whole w' audio0" by blast
  then show "length (read_array w' audio0) = shape audio0"
    by (simp add: allocated_whole_def read_array_def)
next
  assume a: "\<not> start_time n + duration n \<le> st \<and> \<not> en \<le> start_time n \<and>
    map_of (tracks self) (track_id n) = Some track \<and>
    play_note (instrument track) n w = Inr (sound, w1) \<and>
    allocated_whole w audio \<and>
    0 \<le> py_int ((start_time n - st) * of_int (sr self)) \<and>
    py_int ((start_time n - st) * of_int (sr self)) + int (shape sound) \<le> int (shape audio)"
  define s where "s = py_int ((start_time n - st) * of_int (sr self))"
  define m where "m = shape sound"
  define L where "L = shape audio"
  from a have pn: "play_note (instrument track) n w = Inr (sound, w1)" and aw: "allocated_whole w audio"
    and s0: "0 \<le> s" and fit: "s + int m \<le> int L"
    by (simp_all add: s_def m_def L_def)
  obtain b where lv: "lookup_val w (wavetable_ref (instrument track)) (pitch n) = Array b"
    using play_note_Inr[OF pn] by blast
  have ls: "length (read_array w1 sound) = m"
    using play_note_read_sound(2)[OF pn lv] by (simp add: m_def)
  have aw1: "allocated_whole w1 audio" and old: "arrays w1 (base audio) = arrays w (base audio)"
    using play_note_allocated_whole(1,2)[OF pn aw] .
  have si: "slice_index L s = nat s" "slice_index L (s + int m) = nat s + m"
    using s0 fit by (auto simp: slice_index_def)
  let ?sl = "slice_view audio s (s + int m)"
  have rd: "read_array w1 ?sl = take m (drop (nat s) (arrays w (base audio)))"
    using read_slice_whole(1)[OF aw1, of s "s + int m"] by (simp add: L_def[symmetric] si old)
  have len: "length (read_array w1 ?sl) = m"
    using read_slice_whole(2)[OF aw1, of s "s + int m"] by (simp add: L_def[symmetric] si)
  have ia: "np_iadd ?sl sound w1 = Inr (write_array ?sl (map2 (+) (read_array w1 ?sl) (read_array w1 sound)) w1)"
    by (simp add: np_iadd_def Let_def ls len)
  have off: "offset audio = 0" using aw by (simp add: allocated_whole_def)
  have "render_notes self st en audio (n # ns) w =
          render_notes self st en audio ns (write_array ?sl (map2 (+) (read_array w1 ?sl) (read_array w1 sound)) w1)"
    using render_notes_visit[of n st en self track w sound w1 audio ns] a ia
    by (simp add: s_def m_def)
  moreover have "arrays (write_array ?sl (map2 (+) (read_array w1 ?sl) (read_array w1 sound)) w1) (base audio) =
       take (nat s) (arrays w (base audio)) @
       map2 (+) (take m (drop (nat s) (arrays w (base audio)))) (read_array w1 sound) @
       drop (nat s + m) (arrays w (base audio))"
    using write_array_frame(6)[of ?sl _ w1]
    by (simp add: rd old off L_def[symmetric] si)
  ultimately show "\<exists>w2. render_notes self st en audio (n # ns) w = render_notes self st en audio ns w2 \<and>
            arrays w2 (base audio) =
              take (nat (py_int ((start_time n - st) * of_int (sr self)))) (arrays w (base audio)) @
              map2 (+) (take (shape sound)
                          (drop (nat (py_int ((start_time n - st) * of_int (sr self)))) (arrays w (base audio))))
                       (read_array w1 sound) @
              drop (nat (py_int ((start_time n - st) * of_int (sr self))) + shape sound) (arrays w (base audio))"
    unfolding s_def m_def by blast
qed

text \<open>The clap sample \<open>[4, 5]\<close> at time 1/2 in the window from 0 to 2: four samples, the
  clap from index 1 on.\<close>

theorem buffer_length_and_offset_witness:
  "rendered_samples
     (generate_audio (drum_timeline [Note_init 1 (StrKey ''clap'') (1/2) (1/2) 1 False]) 0 (Some 2) drum_world)
     = Inr [0, 4, 5, 0] \<and>
   py_int ((2 - 0) * of_int (sr (drum_timeline [Note_init 1 (StrKey ''clap'') (1/2) (1/2) 1 False]))) = 4 \<and>
   py_int ((start_time (Note_init 1 (StrKey ''clap'') (1/2) (1/2) 1 False) - 0)
            * of_int (sr (drum_timeline [Note_init 1 (StrKey ''clap'') (1/2) (1/2) 1 False]))) = 1"
proof -
  let ?n = "Note_init 1 (StrKey ''clap'') (1/2) (1/2) 1 False"
  let ?tl = "drum_timeline [?n]"
  let ?g = "generate_audio ?tl 0 (Some 2) drum_world"
  let ?w = "snd (new_array [0, 0, 0, 0] drum_world)"
  let ?au = "\<lparr>base = 2, offset = 0, shape = 4\<rparr>"
  let ?p = "play_note clap_instrument ?n ?w"
  have r: "rendered_samples ?g = Inr [0, 4, 5, 0]"
    by code_simp
  have off: "py_int ((start_time ?n - 0) * of_int (sr ?tl)) = 1"
    by code_simp
  have g: "?g = Inr (fst (projr ?g), fst (snd (projr ?g)), snd (snd (projr ?g)))"
    using rendered_samples_InrD[OF r] .
  have p0: "?p = Inr (fst (projr ?p), snd (projr ?p))"
    by (rule not_isl_InrD) code_simp
  have p: "play_note (instrument \<lparr>tr_id = 1, instrument = clap_instrument\<rparr>) ?n ?w
             = Inr (fst (projr ?p), snd (projr ?p))"
    using p0 by simp
  have v: "\<not> start_time ?n + duration ?n \<le> 0" "\<not> 2 \<le> start_time ?n"
          "map_of (tracks ?tl) (track_id ?n) = Some \<lparr>tr_id = 1, instrument = clap_instrument\<rparr>"
    by (simp_all add: Note_init_def drum_timeline_def)
  have aw: "allocated_whole ?w ?au"
    by code_simp
  have fit: "0 \<le> py_int ((start_time ?n - 0) * of_int (sr ?tl))"
            "py_int ((start_time ?n - 0) * of_int (sr ?tl)) + int (shape (fst (projr ?p))) \<le> int (shape ?au)"
    by code_simp+
  note T = buffer_length_and_offset[of ?tl 0 2 drum_world "fst (projr ?g)" "fst (snd (projr ?g))"
     "snd (snd (projr ?g))" ?n "\<lparr>tr_id = 1, instrument = clap_instrument\<rparr>" ?w
     "fst (projr ?p)" "snd (projr ?p)" ?au "[]"]
  note A = T[THEN conjunct1, THEN mp, OF g, THEN conjunct1]
  note B = T[THEN conjunct2, THEN mp,
             OF conjI[OF v(1) conjI[OF v(2) conjI[OF v(3) conjI[OF p conjI[OF aw conjI[OF fit(1) fit(2)]]]]]]]
  have sh: "shape (fst (projr ?g)) = 4"
    by code_simp
  have len: "py_int ((2 - 0) * of_int (sr ?tl)) = 4"
    using A[symmetric] sh by simp
  from B r len off show ?thesis
    by simp
qed


text \<open>A window of 9/10 at two frames per unit of time is 1.8 frames: the buffer has one
  sample, and rounding gives 2.\<close>

theorem buffer_length_round_counterexample:
  "rendered_samples
     (generate_audio (drum_timeline [Note_init 0 (StrKey ''kick'') 0 (1/2) 1 True]) 0 (Some (9/10)) drum_world)
     = Inr [1] \<and>
   nat (round ((9/10 - 0) * rat_of_int (sr (drum_timeline [Note_init 0 (StrKey ''kick'') 0 (1/2) 1 True])))) = 2"
  by code_simp

subsection \<open>The early exit of the loop\<close>

lemma render_notes_all_late:
  "\<forall>m\<in>set ns. en \<le> start_time m \<Longrightarrow> render_notes self st en audio ns w = Inr w"
  by (induction ns) auto

lemma render_notes_ignores_notes:
  "render_notes (self\<lparr>notes := xs\<rparr>) st en audio ns w = render_notes self st en audio ns w"
  by (induction ns arbitrary: w) (auto simp: Let_def split: option.splits sum.splits)

lemma render_notes_cut:
  "\<forall>m\<in>set late. en \<le> start_time m \<Longrightarrow>
   render_notes self st en audio (pre @ late) w = render_notes self st en audio pre w"
proof (induction pre arbitrary: w)
  case Nil
  then show ?case by (simp add: render_notes_all_late)
next
  case (Cons p pre)
  then show ?case
    by (auto split: option.splits sum.splits simp: Let_def)
qed

text \<open>
  Claim C2. In a note list sorted by start time, a note that starts at or after the end of
  the window, and every note after it, is without effect: the loop over the whole list
  gives what the loop over the notes before that note gives, the error or the store with its
  buffers, wavetables and trace of calls, and \<^verbatim>\<open>generate_audio\<close> returns the same buffer
  and store as on the timeline that holds the earlier notes only.
\<close>

theorem early_exit_skips_rest:
  assumes srt: "sorted (map start_time (pre @ n # post))"
      and late: "en \<le> start_time n"
      and ns: "notes self = pre @ n # post"
  shows "render_notes self st en audio (pre @ n # post) w0 = render_notes self st en audio pre w0 \<and>
         map_sum id (\<lambda>(a, s', w'). (a, w')) (generate_audio self st (Some en) w) =
         map_sum id (\<lambda>(a, s', w'). (a, w')) (generate_audio (self\<lparr>notes := pre\<rparr>) st (Some en) w)"
proof -
  have "\<forall>m\<in>set (n # post). en \<le> start_time m"
    using srt late by (auto simp: sorted_append)
  from render_notes_cut[OF this]
  have cut: "\<And>w audio. render_notes self st en audio (pre @ n # post) w = render_notes self st en audio pre w"
    by simp
  have s1: "sort_key start_time (pre @ n # post) = pre @ n # post"
    using srt by (rule sort_key_id_if_sorted)
  have "sorted (map start_time pre)" using srt by (simp add: sorted_append)
  then have s2: "sort_key start_time pre = pre"
    by (rule sort_key_id_if_sorted)
  have "map_sum id (\<lambda>(a, s', w'). (a, w')) (generate_audio self st (Some en) w) =
         map_sum id (\<lambda>(a, s', w'). (a, w')) (generate_audio (self\<lparr>notes := pre\<rparr>) st (Some en) w)"
    by (simp add: generate_audio_def resolve_end_time_def sort_notes_def ns s1 s2 cut
          render_notes_ignores_notes Let_def split: sum.splits prod.splits)
  with cut show ?thesis by simp
qed

text \<open>A kick at time 0, a kick at time 1, which is the end of the window, and then a note on
  a track 7 that does not exist: one call of the instrument, one of the generator, no
  \<^verbatim>\<open>KeyError\<close>.\<close>

theorem early_exit_skips_rest_witness:
  "rendered_samples
     (generate_audio
        (drum_timeline [Note_init 0 (StrKey ''kick'') 0 (1/2) 1 True,
                        Note_init 0 (StrKey ''kick'') 1 (1/2) 1 True,
                        Note_init 7 (StrKey ''snare'') (3/2) (1/2) 1 True]) 0 (Some 1) drum_world)
     = Inr [1, 0] \<and>
   rendered_trace
     (generate_audio
        (drum_timeline [Note_init 0 (StrKey ''kick'') 0 (1/2) 1 True,
                        Note_init 0 (StrKey ''kick'') 1 (1/2) 1 True,
                        Note_init 7 (StrKey ''snare'') (3/2) (1/2) 1 True]) 0 (Some 1) drum_world)
     = Inr [PlayNote kick_instrument (Note_init 0 (StrKey ''kick'') 0 (1/2) 1 True),
            GetSound 0 (StrKey ''kick'')]"
proof -
  let ?tl = "drum_timeline [Note_init 0 (StrKey ''kick'') 0 (1/2) 1 True,
                        Note_init 0 (StrKey ''kick'') 1 (1/2) 1 True,
                        Note_init 7 (StrKey ''snare'') (3/2) (1/2) 1 True]"
  have s: "sorted (map start_time ([Note_init 0 (StrKey ''kick'') 0 (1/2) 1 True] @ Note_init 0 (StrKey ''kick'') 1 (1/2) 1 True # [Note_init 7 (StrKey ''snare'') (3/2) (1/2) 1 True]))"
    by (simp add: Note_init_def)
  have l: "(1 :: rat) \<le> start_time (Note_init 0 (StrKey ''kick'') 1 (1/2) 1 True)"
    by (simp add: Note_init_def)
  have n: "notes ?tl = [Note_init 0 (StrKey ''kick'') 0 (1/2) 1 True] @ Note_init 0 (StrKey ''kick'') 1 (1/2) 1 True # [Note_init 7 (StrKey ''snare'') (3/2) (1/2) 1 True]"
    by (simp add: drum_timeline_def)
  have r: "rendered_samples (generate_audio ?tl 0 (Some 1) drum_world) = Inr [1, 0]"
    by code_simp
  have t: "rendered_trace (generate_audio ?tl 0 (Some 1) drum_world)
     = Inr [PlayNote kick_instrument (Note_init 0 (StrKey ''kick'') 0 (1/2) 1 True),
            GetSound 0 (StrKey ''kick'')]"
    by code_simp
  from early_exit_skips_rest[OF s l n] r t show ?thesis
    by blast
qed


subsection \<open>Rendering twice\<close>

lemma generate_audio_Inr_iff:
  "generate_audio self st end_time w = Inr (audio, self', w') \<longleftrightarrow>
    (\<exists>en. self' = (if \<not> keep_sorted self then sort_notes self else self) \<and>
       resolve_end_time self' end_time = Inr en \<and>
       0 \<le> py_int ((en - st) * of_int (sr self')) \<and>
       audio = \<lparr>base = next_array w, offset = 0, shape = nat (py_int ((en - st) * of_int (sr self')))\<rparr> \<and>
       render_notes self' st en audio (notes self')
           (w\<lparr>arrays := (arrays w)(next_array w := replicate (nat (py_int ((en - st) * of_int (sr self')))) 0),
              next_array := Suc (next_array w)\<rparr>) = Inr w')"
  by (auto simp: generate_audio_def np_zeros_def new_array_def Let_def
           split: sum.splits prod.splits)

lemma sort_notes_idem:
  "(if \<not> keep_sorted self then sort_notes self else self) = self1 \<Longrightarrow>
   (if \<not> keep_sorted self1 then sort_notes self1 else self1) = self1"
  by (auto simp: sort_notes_def sort_key_id_if_sorted)

lemma np_iadd_sim:
  assumes "read_array v t' = read_array w t" and "read_array v s' = read_array w s"
      and "np_iadd t s w = Inr w2"
  shows "\<exists>zs. length zs = length (read_array w t) \<and> w2 = write_array t zs w \<and>
              np_iadd t' s' v = Inr (write_array t' zs v)"
proof (cases "length (read_array w s) = length (read_array w t)")
  case True
  with assms show ?thesis
    by (intro exI[of _ "map2 (+) (read_array w t) (read_array w s)"]) (simp add: np_iadd_def Let_def)
next
  case False
  with assms(3) obtain y where y: "read_array w s = [y]" and "w2 = write_array t (map (\<lambda>x. x + y) (read_array w t)) w"
    by (auto simp: np_iadd_def Let_def split: list.splits)
  with False assms(1,2) show ?thesis
    by (intro exI[of _ "map (\<lambda>x. x + y) (read_array w t)"]) (simp add: np_iadd_def Let_def)
qed

lemma write_slice_base:
  "arrays (write_array (slice_view a s e) zs w) (base a) =
     take (offset a + slice_index (shape a) s) (arrays w (base a)) @ zs @
     drop (offset a + slice_index (shape a) s + (slice_index (shape a) e - slice_index (shape a) s))
          (arrays w (base a))"
  using write_array_frame(6)[of "slice_view a s e" zs w] by simp

lemma visit_step:
  assumes pn: "play_note ins n w = Inr (sound, w1)"
      and aw: "allocated_whole w audio"
      and zs: "length zs = length (read_array w1 (slice_view audio s e))"
  shows "allocated_whole (write_array (slice_view audio s e) zs w1) audio"
    and "lookup_val (write_array (slice_view audio s e) zs w1) = lookup_val w"
    and "wt_sr (wavetables (write_array (slice_view audio s e) zs w1) r) = wt_sr (wavetables w r)"
    and "next_array (write_array (slice_view audio s e) zs w1) = Suc (next_array w)"
    and "a < next_array w \<Longrightarrow> a \<noteq> base audio \<Longrightarrow> arrays (write_array (slice_view audio s e) zs w1) a = arrays w a"
proof -
  let ?w2 = "write_array (slice_view audio s e) zs w1"
  have aw1: "allocated_whole w1 audio"
    using play_note_allocated_whole(1)[OF pn aw] .
  show "allocated_whole ?w2 audio"
    using write_slice_whole[OF aw1 zs] .
  from play_note_Inr[OF pn] obtain xs where
    ar: "arrays w1 = (arrays w)(next_array w := xs)" and nx: "next_array w1 = Suc (next_array w)"
    and wt: "wavetables w1 = wavetables (snd (Wavetable_getitem (wavetable_ref ins) (pitch n) w))"
    by blast
  have "lookup_val ?w2 = lookup_val w1"
    by (rule lookup_val_wavetables) simp
  also have "\<dots> = lookup_val w"
    using play_note_lookup_val[OF pn] by (intro ext) simp
  finally show "lookup_val ?w2 = lookup_val w" .
  show "wt_sr (wavetables ?w2 r) = wt_sr (wavetables w r)"
    by (simp add: wt getitem_frame)
  show "next_array ?w2 = Suc (next_array w)" by (simp add: nx)
  show "a < next_array w \<Longrightarrow> a \<noteq> base audio \<Longrightarrow> arrays ?w2 a = arrays w a"
    by (simp add: ar)
qed

lemma render_notes_sim:
  assumes "\<forall>t\<in>snd ` set (tracks self). \<forall>k a.
             lookup_val w (wavetable_ref (instrument t)) k = Array a \<longrightarrow> base a < b"
      and "lookup_val v = lookup_val w"
      and "\<forall>r. wt_sr (wavetables v r) = wt_sr (wavetables w r)"
      and "\<forall>a<b. arrays v a = arrays w a"
      and "b \<le> next_array w" and "b \<le> next_array v"
      and "allocated_whole w au" and "allocated_whole v av"
      and "b \<le> base au" and "b \<le> base av"
      and "arrays v (base av) = arrays w (base au)"
      and "render_notes self st en au ns w = Inr w'"
  shows "\<exists>v'. render_notes self st en av ns v = Inr v' \<and> arrays v' (base av) = arrays w' (base au)"
  using assms
proof (induction ns arbitrary: w v)
  case Nil
  then show ?case by simp
next
  case (Cons n ns)
  show ?case
  proof (cases "start_time n + duration n \<le> st")
    case True
    with Cons.prems(12) have r: "render_notes self st en au ns w = Inr w'" by simp
    from Cons.IH[OF Cons.prems(1-11) r] True show ?thesis by simp
  next
    case skip: False
    show ?thesis
    proof (cases "en \<le> start_time n")
      case True
      with skip Cons.prems show ?thesis by simp
    next
      case False
      with skip Cons.prems(12) obtain track sw w1 where
        tr: "map_of (tracks self) (track_id n) = Some track" and
        pw: "play_note (instrument track) n w = Inr (sw, w1)"
        by (auto split: option.splits sum.splits)
      define s where "s = py_int ((start_time n - st) * of_int (sr self))"
      define r where "r = wavetable_ref (instrument track)"
      from render_notes_visit[OF skip False tr pw, of au ns] Cons.prems(12)
      obtain w2 where iw: "np_iadd (slice_view au s (s + int (shape sw))) sw w1 = Inr w2"
        and rest: "render_notes self st en au ns w2 = Inr w'"
        by (auto simp: s_def split: sum.splits)
      from play_note_Inr[OF pw] obtain a where
        lw: "lookup_val w r (pitch n) = Array a" and
        shw: "shape sw = (if time_wise n
                    then slice_index (length (read_array w a))
                           (py_int (duration n * of_int (wt_sr (wavetables w r))))
                    else length (read_array w a))"
        by (auto simp: r_def)
      have "track \<in> snd ` set (tracks self)"
        using map_of_SomeD[OF tr] by force
      with Cons.prems(1) lw have ab: "base a < b" by (auto simp: r_def)
      have ra: "read_array v a = read_array w a"
        using ab Cons.prems(4) by (simp add: read_array_def)
      have lv: "lookup_val v r (pitch n) = Array a"
        using lw Cons.prems(2) by simp
      from play_note_total[of v "instrument track" n a] lv obtain sv v1 where
        pv: "play_note (instrument track) n v = Inr (sv, v1)"
        by (auto simp: r_def)
      from play_note_Inr[OF pv] lv have
        shv: "shape sv = (if time_wise n
                    then slice_index (length (read_array v a))
                           (py_int (duration n * of_int (wt_sr (wavetables v r))))
                    else length (read_array v a))"
        by (auto simp: r_def)
      have sh: "shape sv = shape sw"
        using shw shv ra Cons.prems(3) by simp
      have rs: "read_array v1 sv = read_array w1 sw"
        using play_note_read_sound(1)[OF pw] play_note_read_sound(1)[OF pv] lw lv ra sh
        by (simp add: r_def)
      have shape_eq: "shape av = shape au"
        using Cons.prems(7,8,11) by (simp add: allocated_whole_def)
      have aw1: "allocated_whole w1 au" and ow: "arrays w1 (base au) = arrays w (base au)"
        using play_note_allocated_whole(1,2)[OF pw Cons.prems(7)] .
      have av1: "allocated_whole v1 av" and ov: "arrays v1 (base av) = arrays v (base av)"
        using play_note_allocated_whole(1,2)[OF pv Cons.prems(8)] .
      let ?tw = "slice_view au s (s + int (shape sw))" and ?tv = "slice_view av s (s + int (shape sw))"
      have rt: "read_array v1 ?tv = read_array w1 ?tw"
        using read_slice_whole(1)[OF aw1] read_slice_whole(1)[OF av1]
        by (simp add: shape_eq ow ov Cons.prems(11))
      from np_iadd_sim[OF rt rs iw] obtain zs where
        zs: "length zs = length (read_array w1 ?tw)" and w2: "w2 = write_array ?tw zs w1"
        and iv: "np_iadd ?tv sv v1 = Inr (write_array ?tv zs v1)"
        by blast
      define v2 where "v2 = write_array ?tv zs v1"
      have zsv: "length zs = length (read_array v1 ?tv)" using zs rt by simp
      note W = visit_step[OF pw Cons.prems(7) zs, folded w2]
      note V = visit_step[OF pv Cons.prems(8) zsv, folded v2_def]
      have ou: "offset au = 0" "offset av = 0"
        using Cons.prems(7,8) by (simp_all add: allocated_whole_def)
      have c: "arrays v2 (base av) = arrays w2 (base au)"
        by (simp add: v2_def w2 write_slice_base ov ow Cons.prems(11) shape_eq ou)
      have 1: "\<forall>t\<in>snd ` set (tracks self). \<forall>k a.
             lookup_val w2 (wavetable_ref (instrument t)) k = Array a \<longrightarrow> base a < b"
        using Cons.prems(1) W(2) by simp
      have 2: "lookup_val v2 = lookup_val w2" using W(2) V(2) Cons.prems(2) by simp
      have 3: "\<forall>r. wt_sr (wavetables v2 r) = wt_sr (wavetables w2 r)"
        using W(3) V(3) Cons.prems(3) by simp
      have 4: "\<forall>a<b. arrays v2 a = arrays w2 a"
        using W(5) V(5) Cons.prems(4,5,6,9,10) by auto
      have 5: "b \<le> next_array w2" "b \<le> next_array v2"
        using W(4) V(4) Cons.prems(5,6) by simp_all
      from Cons.IH[OF 1 2 3 4 5 W(1) V(1) Cons.prems(9,10) c rest]
      obtain v' where "render_notes self st en av ns v2 = Inr v'" "arrays v' (base av) = arrays w' (base au)"
        by blast
      moreover have "render_notes self st en av (n # ns) v = render_notes self st en av ns v2"
        using render_notes_visit[OF skip False tr pv, of av ns] iv
        by (simp add: s_def sh v2_def)
      ultimately show ?thesis by simp
    qed
  qed
qed

text \<open>
  Claim C9. When \<^verbatim>\<open>generate_audio\<close> has returned, on a store where the buffers of the
  instruments are allocated, a second call with the same arguments on the timeline and the
  store that the first call left returns as well, leaves the timeline as it is, and its
  buffer holds the same samples as the buffer of the first call.
\<close>

theorem generate_audio_idempotent:
  assumes g1: "generate_audio self st end_time w = Inr (a1, self1, w1)"
      and wf: "buffers_allocated self w"
  shows "\<exists>a2 w2. generate_audio self1 st end_time w1 = Inr (a2, self1, w2) \<and>
                 read_array w2 a2 = read_array w1 a1"
proof -
  from g1[unfolded generate_audio_Inr_iff] obtain en where
    s1: "self1 = (if \<not> keep_sorted self then sort_notes self else self)" and
    en: "resolve_end_time self1 end_time = Inr en" and
    nn: "0 \<le> py_int ((en - st) * of_int (sr self1))" and
    a1: "a1 = \<lparr>base = next_array w, offset = 0, shape = nat (py_int ((en - st) * of_int (sr self1)))\<rparr>" and
    r1: "render_notes self1 st en a1 (notes self1)
           (w\<lparr>arrays := (arrays w)(next_array w := replicate (nat (py_int ((en - st) * of_int (sr self1)))) 0),
              next_array := Suc (next_array w)\<rparr>) = Inr w1"
    by blast
  define L where "L = nat (py_int ((en - st) * of_int (sr self1)))"
  define wa where "wa = w\<lparr>arrays := (arrays w)(next_array w := replicate L 0), next_array := Suc (next_array w)\<rparr>"
  define va where "va = w1\<lparr>arrays := (arrays w1)(next_array w1 := replicate L 0), next_array := Suc (next_array w1)\<rparr>"
  define a2 where "a2 = \<lparr>base = next_array w1, offset = 0, shape = L\<rparr>"
  have r1': "render_notes self1 st en a1 (notes self1) wa = Inr w1"
    using r1 by (simp add: wa_def L_def)
  have awa: "allocated_whole wa a1"
    by (simp add: allocated_whole_def wa_def a1 L_def)
  from render_notes_frame[OF awa r1'] have
    aw1: "allocated_whole w1 a1" and
    lv1: "\<forall>s k. lookup_val w1 s k = lookup_val wa s k" and
    sr1: "\<forall>s. wt_sr (wavetables w1 s) = wt_sr (wavetables wa s)" and
    nx1: "next_array wa \<le> next_array w1" and
    fr1: "\<forall>a<next_array wa. a \<noteq> base a1 \<longrightarrow> arrays w1 a = arrays wa a"
    by blast+
  have tr: "tracks self1 = tracks self"
    by (simp add: s1 sort_notes_def)
  have lwa: "lookup_val wa = lookup_val w"
    by (rule lookup_val_wavetables) (simp add: wa_def)
  have lva: "lookup_val va = lookup_val w1"
    by (rule lookup_val_wavetables) (simp add: va_def)
  have 1: "\<forall>t\<in>snd ` set (tracks self1). \<forall>k a.
             lookup_val wa (wavetable_ref (instrument t)) k = Array a \<longrightarrow> base a < next_array w"
    using wf by (simp add: buffers_allocated_def tr lwa)
  have 2: "lookup_val va = lookup_val wa"
    using lv1 lva by (intro ext) simp
  have 3: "\<forall>r. wt_sr (wavetables va r) = wt_sr (wavetables wa r)"
    using sr1 by (simp add: va_def)
  have nxa: "next_array wa = Suc (next_array w)" by (simp add: wa_def)
  have 4: "\<forall>a<next_array w. arrays va a = arrays wa a"
    using fr1 nx1 nxa by (auto simp: va_def a1)
  have 5: "next_array w \<le> next_array wa" "next_array w \<le> next_array va"
    using nx1 nxa by (simp_all add: va_def)
  have ava: "allocated_whole va a2"
    by (simp add: allocated_whole_def va_def a2_def)
  have 6: "next_array w \<le> base a1" "next_array w \<le> base a2"
    using nx1 nxa by (simp_all add: a1 a2_def)
  have 7: "arrays va (base a2) = arrays wa (base a1)"
    by (simp add: va_def wa_def a2_def a1 L_def)
  from render_notes_sim[OF 1 2 3 4 5 awa ava 6 7 r1']
  obtain w2 where r2: "render_notes self1 st en a2 (notes self1) va = Inr w2"
    and c: "arrays w2 (base a2) = arrays w1 (base a1)"
    by blast
  have s2: "self1 = (if \<not> keep_sorted self1 then sort_notes self1 else self1)"
    using sort_notes_idem[OF s1[symmetric]] by simp
  have g2: "generate_audio self1 st end_time w1 = Inr (a2, self1, w2)"
    unfolding generate_audio_Inr_iff
    using s2 en nn r2 by (intro exI[of _ en]) (simp add: a2_def va_def L_def)
  have "read_array w2 a2 = read_array w1 a1"
    by (simp add: read_array_def c) (simp add: a1 a2_def L_def)
  with g2 show ?thesis by blast
qed

text \<open>A kick at time 0 and a clap at time 1/2, both trimmed to one frame, with the default
  end time, rendered twice.\<close>

theorem generate_audio_idempotent_witness:
  "buffers_allocated
     (drum_timeline [Note_init 0 (StrKey ''kick'') 0 (1/2) 1 True,
                     Note_init 1 (StrKey ''clap'') (1/2) (1/2) 1 True]) drum_world \<and>
   rendered_samples
     (generate_audio (drum_timeline [Note_init 0 (StrKey ''kick'') 0 (1/2) 1 True,
                                     Note_init 1 (StrKey ''clap'') (1/2) (1/2) 1 True]) 0 None drum_world)
     = Inr [1, 4] \<and>
   rendered_samples
     (generate_audio (drum_timeline [Note_init 0 (StrKey ''kick'') 0 (1/2) 1 True,
                                     Note_init 1 (StrKey ''clap'') (1/2) (1/2) 1 True]) 0 None
        (snd (snd (projr (generate_audio
            (drum_timeline [Note_init 0 (StrKey ''kick'') 0 (1/2) 1 True,
                            Note_init 1 (StrKey ''clap'') (1/2) (1/2) 1 True]) 0 None drum_world)))))
     = Inr [1, 4]"
proof -
  let ?tl = "drum_timeline [Note_init 0 (StrKey ''kick'') 0 (1/2) 1 True,
                     Note_init 1 (StrKey ''clap'') (1/2) (1/2) 1 True]"
  let ?g = "generate_audio ?tl 0 None drum_world"
  have al: "buffers_allocated ?tl drum_world"
    by (simp add: buffers_allocated_def lookup_val_def example_defs)
  have r1: "rendered_samples ?g = Inr [1, 4]"
    by code_simp
  have r2: "rendered_samples (generate_audio ?tl 0 None (snd (snd (projr ?g)))) = Inr [1, 4]"
    by code_simp
  have tl: "fst (snd (projr ?g)) = ?tl"
    by code_simp
  have g: "?g = Inr (fst (projr ?g), ?tl, snd (snd (projr ?g)))"
    using rendered_samples_InrD[OF r1] tl by simp
  from generate_audio_idempotent[OF g al] al r1 r2 show ?thesis
    by blast
qed


end
